theory Spec2Isabelle
  imports Complex_Main "HOL-Library.Multiset"
begin

section \<open>The group archive: store, day boundaries, summaries, scheduler, capture\<close>

text \<open>
  A shallow embedding of the group-archive extension: the archive store of \<open>db.ts\<close>
  (class \<open>ArchiveDb\<close>), the summary pipeline (\<open>formatTranscript\<close>, \<open>generateSummary\<close>,
  \<open>midnightUtcForDate\<close>, \<open>generateAndStoreSummary\<close>), the scheduler (\<open>createScheduler\<close>)
  and the capture handler (\<open>createCaptureHandler\<close>).

  Conventions of the embedding.
  \<^item> A JavaScript string is a \<open>string\<close>; one \<open>char\<close> stands for one code unit, so
    \<open>length\<close> is the \<open>.length\<close> of the source.
  \<^item> Timestamps are epoch milliseconds, an \<open>int\<close>. A JavaScript number that may be
    \<open>NaN\<close> is an \<open>int option\<close>, \<open>None\<close> being \<open>NaN\<close>.
  \<^item> A thrown exception is the \<open>Inl\<close> of a sum.
  \<^item> \<open>Date.now()\<close> and \<open>randomUUID()\<close> read the environment: the value read is an argument
    of the operation that reads it.
  \<^item> A time zone is given by its UTC offset in milliseconds at every instant. The zone
    database behind \<open>Intl.DateTimeFormat\<close> is not part of the repository; a zone is a
    parameter of every function that formats in it.
  \<^item> Asynchronous functions are run to completion, one after the other.
\<close>

datatype error = RangeError | DimensionMismatch | ForeignKeyViolation | BackendError string

subsection \<open>Strings\<close>

definition is_digit :: "char \<Rightarrow> bool" where
  "is_digit c = (c \<in> set ''0123456789'')"

definition digit_val :: "char \<Rightarrow> nat" where
  "digit_val c = of_char c - 48"

text \<open>Decimal rendering of a natural number, as number-to-string conversion gives it.\<close>

fun show_nat :: "nat \<Rightarrow> string" where
  "show_nat n =
     (if n < 10 then [''0123456789'' ! n]
      else show_nat (n div 10) @ [''0123456789'' ! (n mod 10)])"

declare show_nat.simps [simp del]

text \<open>A field formatted as \<open>2-digit\<close>, and \<open>padStart(k, "0")\<close>.\<close>

definition pad2 :: "nat \<Rightarrow> string" where
  "pad2 n = (if n < 10 then CHR ''0'' # show_nat n else show_nat n)"

definition pad_start :: "nat \<Rightarrow> string \<Rightarrow> string" where
  "pad_start k s = replicate (k - length s) (CHR ''0'') @ s"

text \<open>\<open>s.split(c)\<close> for a one-character separator: \<open>"".split(c)\<close> is \<open>[""]\<close>.\<close>

fun split_on :: "char \<Rightarrow> string \<Rightarrow> string list" where
  "split_on c [] = [[]]"
| "split_on c (x # xs) =
     (if x = c then [] # split_on c xs
      else (case split_on c xs of
              [] \<Rightarrow> [[x]]
            | p # ps \<Rightarrow> (x # p) # ps))"

text \<open>
  \<open>Number(s)\<close> on the strings the model covers: the empty string is 0, a string of decimal
  digits is its value, and every other string is \<open>NaN\<close>. (JavaScript also reads signs,
  fractions, exponents, radix prefixes and surrounding white space; such parts do not occur
  in a \<open>YYYY-MM-DD\<close> date and are outside the model.)
\<close>

definition Number :: "string \<Rightarrow> int option" where
  "Number s =
     (if list_all is_digit s
      then Some (int (foldl (\<lambda>a c. 10 * a + digit_val c) 0 s))
      else None)"

text \<open>An array element that may be missing: \<open>undefined\<close> converts to \<open>NaN\<close>.\<close>

definition part :: "string list \<Rightarrow> nat \<Rightarrow> int option" where
  "part ps i = (if i < length ps then Number (ps ! i) else None)"

definition endsWith :: "string \<Rightarrow> string \<Rightarrow> bool" where
  "endsWith s suf = (length suf \<le> length s \<and> drop (length s - length suf) s = suf)"

text \<open>
  White space removed by \<open>trim\<close>, among the code units below 256: tab, line feed,
  vertical tab, form feed, carriage return, space and no-break space.
\<close>

definition is_space :: "char \<Rightarrow> bool" where
  "is_space c = (of_char c \<in> {9, 10, 11, 12, 13, 32, 160 :: nat})"

definition trim :: "string \<Rightarrow> string" where
  "trim s = rev (dropWhile is_space (rev (dropWhile is_space s)))"

subsection \<open>The calendar of \<open>Date\<close>\<close>

text \<open>
  Day number (days since 1970-01-01) of a proleptic Gregorian date, and back. Division
  on \<open>int\<close> rounds down, as \<open>floor\<close> does in the definition of \<open>Date\<close>.
\<close>

definition days_from_civil :: "int \<Rightarrow> int \<Rightarrow> int \<Rightarrow> int" where
  "days_from_civil y m d =
     (let y' = (if m \<le> 2 then y - 1 else y);
          era = y' div 400;
          yoe = y' - era * 400;
          doy = (153 * (if m > 2 then m - 3 else m + 9) + 2) div 5 + d - 1;
          doe = yoe * 365 + yoe div 4 - yoe div 100 + doy
      in era * 146097 + doe - 719468)"

definition civil_from_days :: "int \<Rightarrow> int \<times> int \<times> int" where
  "civil_from_days z =
     (let z' = z + 719468;
          era = z' div 146097;
          doe = z' - era * 146097;
          yoe = (doe - doe div 1460 + doe div 36524 - doe div 146096) div 365;
          doy = doe - (365 * yoe + yoe div 4 - yoe div 100);
          mp = (5 * doy + 2) div 153;
          d = doy - (153 * mp + 2) div 5 + 1;
          m = (if mp < 10 then mp + 3 else mp - 9);
          y = yoe + era * 400
      in (if m \<le> 2 then y + 1 else y, m, d))"

definition ms_per_day :: int where
  "ms_per_day = 86400000"

text \<open>\<open>TimeClip\<close>: a time value beyond 8.64e15 ms from the epoch is \<open>NaN\<close> (Invalid Date).\<close>

definition time_clip :: "int \<Rightarrow> int option" where
  "time_clip t = (if \<bar>t\<bar> \<le> 8640000000000000 then Some t else None)"

text \<open>
  \<open>Date.UTC(year, monthIndex, day, hours, 0, 0)\<close>: a \<open>NaN\<close> argument gives \<open>NaN\<close>; a year
  from 0 to 99 means 1900 + year; month index and day overflow into the neighbouring
  months and years (\<open>MakeDay\<close>).
\<close>

definition Date_UTC :: "int option \<Rightarrow> int option \<Rightarrow> int option \<Rightarrow> int \<Rightarrow> int option" where
  "Date_UTC year monthIndex day hours =
     (case (year, monthIndex, day) of
        (Some y, Some mi, Some d) \<Rightarrow>
          (let yr = (if 0 \<le> y \<and> y \<le> 99 then 1900 + y else y);
               ym = yr + mi div 12;
               mn = mi mod 12;
               dayno = days_from_civil ym (mn + 1) 1 + d - 1
           in time_clip (dayno * ms_per_day + hours * 3600000))
      | _ \<Rightarrow> None)"

subsection \<open>Formatting an instant in a time zone\<close>

type_synonym timezone = "int \<Rightarrow> int"

definition local_ms :: "timezone \<Rightarrow> int \<Rightarrow> int" where
  "local_ms tz t = t + tz t"

definition local_date :: "timezone \<Rightarrow> int \<Rightarrow> int \<times> int \<times> int" where
  "local_date tz t = civil_from_days (local_ms tz t div ms_per_day)"

definition local_hour :: "timezone \<Rightarrow> int \<Rightarrow> int" where
  "local_hour tz t = (local_ms tz t mod ms_per_day) div 3600000"

definition local_minute :: "timezone \<Rightarrow> int \<Rightarrow> int" where
  "local_minute tz t = (local_ms tz t mod 3600000) div 60000"

definition local_second :: "timezone \<Rightarrow> int \<Rightarrow> int" where
  "local_second tz t = (local_ms tz t mod 60000) div 1000"

text \<open>
  \<open>Intl.DateTimeFormat("en-CA", {timeZone, year: "numeric", month: "2-digit",
  day: "2-digit"}).format\<close>: \<open>YYYY-MM-DD\<close>, the year without padding; a year before 1 is
  printed as its year of the era before (year 0 as 1). An Invalid Date throws.
\<close>

definition show_ymd :: "int \<times> int \<times> int \<Rightarrow> string" where
  "show_ymd ymd =
     (case ymd of (y, m, d) \<Rightarrow>
        show_nat (nat (if 1 \<le> y then y else 1 - y)) @ ''-'' @ pad2 (nat m) @ ''-'' @ pad2 (nat d))"

definition format_date :: "timezone \<Rightarrow> int option \<Rightarrow> error + string" where
  "format_date tz date =
     (case date of
        None \<Rightarrow> Inl RangeError
      | Some t \<Rightarrow> Inr (show_ymd (local_date tz t)))"

text \<open>
  \<open>Intl.DateTimeFormat("en-GB", {timeZone, hour: "2-digit", minute: "2-digit",
  hour12: false}).format\<close>: \<open>HH:MM\<close> on the 24-hour clock from 00 to 23.
\<close>

definition format_hm :: "timezone \<Rightarrow> int \<Rightarrow> string" where
  "format_hm tz t = pad2 (nat (local_hour tz t)) @ '':'' @ pad2 (nat (local_minute tz t))"

definition format_hms :: "timezone \<Rightarrow> int \<Rightarrow> string" where
  "format_hms tz t = format_hm tz t @ '':'' @ pad2 (nat (local_second tz t))"

subsection \<open>\<open>midnightUtcForDate\<close>\<close>

text \<open>
  \<open>new Date(dateStr + "T00:00:00Z").getTime()\<close>, the fallback of \<open>midnightUtcForDate\<close>:
  for a string \<open>DDDD-DD-DD\<close> of digits with a month from 1 to 12 and a day from 1 to 31 it
  is midnight UTC of that date (a day beyond the month's end runs into the next month);
  every other string is not in the date-time format, and the value is \<open>NaN\<close>.
\<close>

definition iso_shape :: "string \<Rightarrow> bool" where
  "iso_shape s =
     (length s = 10 \<and> s ! 4 = CHR ''-'' \<and> s ! 7 = CHR ''-'' \<and>
      list_all is_digit (take 4 s) \<and> list_all is_digit (take 2 (drop 5 s)) \<and>
      list_all is_digit (drop 8 s))"

definition parse_utc_midnight :: "string \<Rightarrow> int option" where
  "parse_utc_midnight s =
     (if iso_shape s then
        (case (Number (take 4 s), Number (take 2 (drop 5 s)), Number (drop 8 s)) of
           (Some y, Some m, Some d) \<Rightarrow>
             (if 1 \<le> m \<and> m \<le> 12 \<and> 1 \<le> d \<and> d \<le> 31
              then time_clip ((days_from_civil y m 1 + d - 1) * ms_per_day)
              else None)
         | _ \<Rightarrow> None)
      else None)"

text \<open>
  The loop \<open>for (offsetH = -14; offsetH <= 14; offsetH++)\<close>, over the offsets still to be
  tried (\<open>offset_hours\<close> at the start). \<open>rough\<close> is \<open>rough.getTime()\<close>. The hour, minute and second that the source reads
  back from the \<open>HH:MM:SS\<close> rendering are the numbers that were rendered.
\<close>

fun midnight_search :: "timezone \<Rightarrow> string \<Rightarrow> int option \<Rightarrow> int list \<Rightarrow> error + int option" where
  "midnight_search tz dateStr rough [] = Inr (parse_utc_midnight dateStr)"
| "midnight_search tz dateStr rough (offsetH # rest) =
     (let candidate = (case rough of None \<Rightarrow> None | Some r \<Rightarrow> time_clip (r + offsetH * 3600000))
      in case format_date tz candidate of
           Inl e \<Rightarrow> Inl e
         | Inr localDate \<Rightarrow>
             (if localDate = dateStr then
                Inr (map_option
                       (\<lambda>c. c - (local_hour tz c * 3600000 + local_minute tz c * 60000
                                   + local_second tz c * 1000))
                       candidate)
              else midnight_search tz dateStr rough rest))"

definition offset_hours :: "int list" where
  "offset_hours = [-14, -13, -12, -11, -10, -9, -8, -7, -6, -5, -4, -3, -2, -1,
                   0, 1, 2, 3, 4, 5, 6, 7, 8, 9, 10, 11, 12, 13, 14]"

definition midnightUtcForDate :: "string \<Rightarrow> timezone \<Rightarrow> error + int option" where
  "midnightUtcForDate dateStr tz =
     (let ps = split_on (CHR ''-'') dateStr;
          year = part ps 0; month = part ps 1; day = part ps 2;
          rough = Date_UTC year (map_option (\<lambda>m. m - 1) month) day 12
      in midnight_search tz dateStr rough offset_hours)"

subsection \<open>The archive store (\<open>ArchiveDb\<close>)\<close>

text \<open>
  The rows of the three tables. Field names carry the table's initial, since a record
  field is a global name: \<open>m_id\<close> is \<open>MessageRow.id\<close>, \<open>s_date\<close> is
  \<open>DailySummaryRow.date\<close>, and so on. A nullable column is an \<open>option\<close>.
\<close>

record GroupRow =
  g_jid :: string
  g_name :: "string option"
  g_first_seen :: int
  g_last_message :: "int option"
  g_message_count :: int

record MessageRow =
  m_id :: string
  m_group_jid :: string
  m_sender_id :: string
  m_sender_name :: "string option"
  m_content :: string
  m_timestamp :: int
  m_metadata :: "string option"

record DailySummaryRow =
  s_id :: string
  s_group_jid :: string
  s_date :: string
  s_summary_text :: string
  s_message_count :: int
  s_created_at :: int

text \<open>
  The store: each table is the list of its rows in insertion order. \<open>vecAvailable\<close> and
  \<open>dims\<close> are the private fields of the class; \<open>message_embeddings\<close> is the virtual
  table created by \<open>tryLoadVec\<close>, a list of (\<open>message_id\<close>, \<open>embedding\<close>). Vector
  entries are real numbers; the rounding to 32-bit floats of \<open>vectorToBlob\<close> is not
  modelled. Foreign keys are enforced: the source opens the database with the defaults of
  \<open>node:sqlite\<close>, which turn them on, so a row of \<open>messages\<close> or of \<open>daily_summaries\<close>
  can be inserted only for a \<open>group_jid\<close> that has a row in \<open>groups\<close>.
\<close>

record ArchiveDb =
  groups :: "GroupRow list"
  messages :: "MessageRow list"
  daily_summaries :: "DailySummaryRow list"
  message_embeddings :: "(string \<times> real list) list"
  vecAvailable :: bool
  dims :: nat

definition vectorEnabled :: "ArchiveDb \<Rightarrow> bool" where
  "vectorEnabled db = vecAvailable db"

text \<open>
  \<open>upsertGroup\<close>: \<open>INSERT ... ON CONFLICT(jid) DO UPDATE\<close>. \<open>now\<close> is \<open>Date.now()\<close>.
\<close>

definition upsertGroup :: "ArchiveDb \<Rightarrow> int \<Rightarrow> string \<Rightarrow> string option \<Rightarrow> ArchiveDb" where
  "upsertGroup db now jid name =
     (if \<exists>g \<in> set (groups db). g_jid g = jid
      then db\<lparr>groups :=
             map (\<lambda>g. if g_jid g = jid
                      then g\<lparr>g_name := (case name of Some n \<Rightarrow> Some n | None \<Rightarrow> g_name g),
                             g_last_message := Some now,
                             g_message_count := g_message_count g + 1\<rparr>
                      else g)
                 (groups db)\<rparr>
      else db\<lparr>groups := groups db @
             [\<lparr>g_jid = jid, g_name = name, g_first_seen = now,
               g_last_message = Some now, g_message_count = 1\<rparr>]\<rparr>)"

definition has_group :: "ArchiveDb \<Rightarrow> string \<Rightarrow> bool" where
  "has_group db jid = (\<exists>g \<in> set (groups db). g_jid g = jid)"

text \<open>
  \<open>insertMessage\<close>: \<open>INSERT OR IGNORE\<close> under the primary key \<open>id\<close>. \<open>uuid\<close> is the value
  of \<open>randomUUID()\<close>; the \<open>m_id\<close> of the argument is not read (the source's
  \<open>Omit<MessageRow, "id">\<close>). A row whose id is taken is skipped. \<open>OR IGNORE\<close> does not
  cover the foreign key: a new row for a group without a row in \<open>groups\<close> makes the
  statement throw, and nothing is stored. Returns the id and the store.
\<close>

definition insertMessage ::
  "ArchiveDb \<Rightarrow> string \<Rightarrow> MessageRow \<Rightarrow> error + string \<times> ArchiveDb" where
  "insertMessage db uuid msg =
     (if \<exists>m \<in> set (messages db). m_id m = uuid then Inr (uuid, db)
      else if \<not> has_group db (m_group_jid msg) then Inl ForeignKeyViolation
      else Inr (uuid, db\<lparr>messages := messages db @ [msg\<lparr>m_id := uuid\<rparr>]\<rparr>))"

text \<open>
  A comparison with \<open>NaN\<close> bound as a parameter is a comparison with \<open>NULL\<close>: no row
  satisfies it.
\<close>

definition in_range :: "int option \<Rightarrow> int option \<Rightarrow> int \<Rightarrow> bool" where
  "in_range startTs endTs t =
     (case (startTs, endTs) of
        (Some s, Some e) \<Rightarrow> s \<le> t \<and> t < e
      | _ \<Rightarrow> False)"

text \<open>
  \<open>ORDER BY timestamp ASC\<close>: rows with equal timestamps are kept in insertion order
  (the engine leaves their order open).
\<close>

definition getMessagesByGroupAndDateRange ::
  "ArchiveDb \<Rightarrow> string \<Rightarrow> int option \<Rightarrow> int option \<Rightarrow> MessageRow list" where
  "getMessagesByGroupAndDateRange db groupJid startTs endTs =
     sort_key m_timestamp
       (filter (\<lambda>m. m_group_jid m = groupJid \<and> in_range startTs endTs (m_timestamp m))
          (messages db))"

text \<open>
  Modelled from the spec: the virtual table \<open>message_embeddings\<close> is implemented by the
  sqlite-vec extension, which is not among the sources. The spec: "replace-on-write keyed
  by \<open>messageId\<close>. Fails with \<open>DimensionMismatch\<close> if \<open>len(vector) != configured dims\<close>";
  the source declares the column as \<open>FLOAT[dims]\<close> and writes with
  \<open>INSERT OR REPLACE\<close>.
\<close>

definition vec0_insert_or_replace ::
  "nat \<Rightarrow> (string \<times> real list) list \<Rightarrow> string \<Rightarrow> real list
     \<Rightarrow> error + (string \<times> real list) list" where
  "vec0_insert_or_replace n tbl messageId embedding =
     (if length embedding \<noteq> n then Inl DimensionMismatch
      else Inr (filter (\<lambda>e. fst e \<noteq> messageId) tbl @ [(messageId, embedding)]))"

definition insertEmbedding :: "ArchiveDb \<Rightarrow> string \<Rightarrow> real list \<Rightarrow> error + ArchiveDb" where
  "insertEmbedding db messageId embedding =
     (if \<not> vecAvailable db then Inr db
      else (case vec0_insert_or_replace (dims db) (message_embeddings db) messageId embedding of
              Inl e \<Rightarrow> Inl e
            | Inr tbl \<Rightarrow> Inr (db\<lparr>message_embeddings := tbl\<rparr>)))"

text \<open>\<open>LIMIT n\<close>: a negative \<open>n\<close> means no limit.\<close>

definition sql_limit :: "int \<Rightarrow> 'a list \<Rightarrow> 'a list" where
  "sql_limit n rows = (if n < 0 then rows else take (nat n) rows)"

text \<open>
  \<open>searchSimilar\<close>. \<open>cosd\<close> is the SQL function \<open>vec_distance_cosine\<close> of the extension, a
  parameter: \<open>cosd e q\<close> is the cosine distance of a stored embedding \<open>e\<close> and the query
  \<open>q\<close>. A result row is a message with its score. \<open>if (groupJid)\<close> holds for a string
  that is present and not empty. \<open>ORDER BY score DESC\<close> keeps rows of equal score in the
  order of the join.
\<close>

definition joined :: "ArchiveDb \<Rightarrow> (real list \<Rightarrow> real list \<Rightarrow> real) \<Rightarrow> real list
    \<Rightarrow> (MessageRow \<times> real) list" where
  "joined db cosd queryVec =
     concat (map (\<lambda>e. map (\<lambda>m. (m, 1 - cosd (snd e) queryVec))
                            (filter (\<lambda>m. m_id m = fst e) (messages db)))
                 (message_embeddings db))"

definition order_by_score_desc :: "('a \<times> real) list \<Rightarrow> ('a \<times> real) list" where
  "order_by_score_desc rows = sort_key (\<lambda>r. - snd r) rows"

definition searchSimilar ::
  "ArchiveDb \<Rightarrow> (real list \<Rightarrow> real list \<Rightarrow> real) \<Rightarrow> real list \<Rightarrow> int \<Rightarrow> string option
     \<Rightarrow> (MessageRow \<times> real) list" where
  "searchSimilar db cosd queryVec limit groupJid =
     (if \<not> vecAvailable db \<or> length queryVec = 0 then []
      else (case groupJid of
              Some j \<Rightarrow>
                (if j \<noteq> [] then
                   sql_limit limit (order_by_score_desc
                     (filter (\<lambda>r. m_group_jid (fst r) = j) (joined db cosd queryVec)))
                 else sql_limit limit (order_by_score_desc (joined db cosd queryVec)))
            | None \<Rightarrow> sql_limit limit (order_by_score_desc (joined db cosd queryVec))))"

text \<open>
  \<open>insertSummary\<close>: \<open>INSERT OR REPLACE\<close> removes the rows in conflict with the new one, on
  the primary key \<open>id\<close> or on the unique index \<open>(group_jid, date)\<close>, then inserts. For a
  group without a row in \<open>groups\<close> the statement throws on the foreign key and changes
  nothing.
\<close>

definition insertSummary ::
  "ArchiveDb \<Rightarrow> string \<Rightarrow> int \<Rightarrow> string \<Rightarrow> string \<Rightarrow> string \<Rightarrow> int \<Rightarrow> error + ArchiveDb" where
  "insertSummary db uuid now groupJid date summaryText messageCount =
     (if \<not> has_group db groupJid then Inl ForeignKeyViolation
      else Inr (db\<lparr>daily_summaries :=
          filter (\<lambda>s. s_id s \<noteq> uuid \<and> \<not> (s_group_jid s = groupJid \<and> s_date s = date))
            (daily_summaries db) @
          [\<lparr>s_id = uuid, s_group_jid = groupJid, s_date = date, s_summary_text = summaryText,
            s_message_count = messageCount, s_created_at = now\<rparr>]\<rparr>))"

text \<open>\<open>getSummary\<close>: \<open>.get\<close> gives the first matching row, or \<open>undefined\<close>.\<close>

definition getSummary :: "ArchiveDb \<Rightarrow> string \<Rightarrow> string \<Rightarrow> DailySummaryRow option" where
  "getSummary db groupJid date =
     find (\<lambda>s. s_group_jid s = groupJid \<and> s_date s = date) (daily_summaries db)"

text \<open>
  \<open>SELECT DISTINCT group_jid\<close>: each group with a row in the range, once. The engine leaves
  the order open; here the rows are read in the order of the index on \<open>timestamp\<close> and a
  group is listed where its first row is met.
\<close>

definition first_occurrences :: "'a list \<Rightarrow> 'a list" where
  "first_occurrences xs = rev (remdups (rev xs))"

definition getGroupsWithMessagesOnDate :: "ArchiveDb \<Rightarrow> int option \<Rightarrow> int option \<Rightarrow> string list" where
  "getGroupsWithMessagesOnDate db startTs endTs =
     first_occurrences (map m_group_jid
       (sort_key m_timestamp
          (filter (\<lambda>m. in_range startTs endTs (m_timestamp m)) (messages db))))"

subsection \<open>The summary pipeline\<close>

text \<open>
  \<open>Date.prototype.toISOString\<close>: \<open>YYYY-MM-DDTHH:mm:ss.sssZ\<close> in UTC; a year outside 0 to
  9999 is written with a sign and six digits; an Invalid Date throws.
\<close>

definition utc :: timezone where
  "utc t = 0"

definition toISOString :: "int option \<Rightarrow> error + string" where
  "toISOString date =
     (case date of
        None \<Rightarrow> Inl RangeError
      | Some t \<Rightarrow>
          (case local_date utc t of (y, m, d) \<Rightarrow>
             Inr ((if 0 \<le> y \<and> y \<le> 9999 then pad_start 4 (show_nat (nat y))
                   else (if y < 0 then ''-'' else ''+'') @ pad_start 6 (show_nat (nat \<bar>y\<bar>)))
                  @ ''-'' @ pad2 (nat m) @ ''-'' @ pad2 (nat d) @ ''T'' @ format_hms utc t
                  @ ''.'' @ pad_start 3 (show_nat (nat (t mod 1000))) @ ''Z'')))"

definition slice :: "string \<Rightarrow> nat \<Rightarrow> nat \<Rightarrow> string" where
  "slice s i j = take (j - i) (drop i s)"

fun join :: "string \<Rightarrow> string list \<Rightarrow> string" where
  "join sep [] = []"
| "join sep [x] = x"
| "join sep (x # y # ys) = x @ sep @ join sep (y # ys)"

text \<open>One line of the transcript, the body of the \<open>map\<close> in \<open>formatTranscript\<close>.\<close>

definition format_line :: "MessageRow \<Rightarrow> error + string" where
  "format_line m =
     (case toISOString (time_clip (m_timestamp m)) of
        Inl e \<Rightarrow> Inl e
      | Inr isoString \<Rightarrow>
          (let time = slice isoString 11 16;
               sender = (case m_sender_name m of Some n \<Rightarrow> n | None \<Rightarrow> m_sender_id m)
           in Inr (''['' @ time @ ''] '' @ sender @ '': '' @ m_content m)))"

fun map_lines :: "MessageRow list \<Rightarrow> error + string list" where
  "map_lines [] = Inr []"
| "map_lines (m # ms) =
     (case format_line m of
        Inl e \<Rightarrow> Inl e
      | Inr l \<Rightarrow> (case map_lines ms of Inl e \<Rightarrow> Inl e | Inr ls \<Rightarrow> Inr (l # ls)))"

definition formatTranscript :: "MessageRow list \<Rightarrow> error + string" where
  "formatTranscript msgs =
     (case map_lines msgs of Inl e \<Rightarrow> Inl e | Inr ls \<Rightarrow> Inr (join [CHR 10] ls))"

definition truncation_marker :: string where
  "truncation_marker = [CHR 10, CHR 10] @ ''[...transcript truncated...]''"

definition cap_transcript :: "string \<Rightarrow> string" where
  "cap_transcript transcript =
     (if length transcript > 100000 then slice transcript 0 100000 @ truncation_marker
      else transcript)"

text \<open>
  The configuration, as far as the pipeline and the scheduler read it. \<open>timezone\<close> is the
  zone that the configured name denotes.
\<close>

record GroupArchiveConfig =
  summary_provider :: string
  scheduledTime :: string
  timezone :: timezone

text \<open>
  The text-generation backends are remote services: the answer (or failure) of a backend
  to a request is a parameter, a function of the number of requests made before and of the
  transcript sent.
\<close>

type_synonym backend = "nat \<Rightarrow> string \<Rightarrow> error + string"

record backends =
  openai :: backend
  anthropic :: backend

text \<open>What the logger is given, one constructor for each call of the logger in the source.\<close>

datatype log_entry =
    InfoGenerating string string nat
  | InfoSchedulerTriggered string
  | WarnSummaryFailed string error
  | InfoSchedulerDone nat string
  | WarnEmbeddingFailed error

text \<open>
  The state that the operations share: the store, the requests sent to the generation
  backends so far (provider and transcript, oldest first), the log, and the embedding
  requests started by the capture handler and not yet settled (message id and text).
\<close>

record world =
  db :: ArchiveDb
  requests :: "(string \<times> string) list"
  logs :: "log_entry list"
  embed_jobs :: "(string \<times> string) list"

definition generateWithOpenAI :: "backends \<Rightarrow> string \<Rightarrow> world \<Rightarrow> (error + string) \<times> world" where
  "generateWithOpenAI env transcript w =
     (openai env (length (requests w)) transcript,
      w\<lparr>requests := requests w @ [(''openai'', transcript)]\<rparr>)"

definition generateWithAnthropic :: "backends \<Rightarrow> string \<Rightarrow> world \<Rightarrow> (error + string) \<times> world" where
  "generateWithAnthropic env transcript w =
     (anthropic env (length (requests w)) transcript,
      w\<lparr>requests := requests w @ [(''anthropic'', transcript)]\<rparr>)"

definition generateSummary ::
  "GroupArchiveConfig \<Rightarrow> backends \<Rightarrow> MessageRow list \<Rightarrow> world \<Rightarrow> (error + string) \<times> world" where
  "generateSummary config env msgs w =
     (case formatTranscript msgs of
        Inl e \<Rightarrow> (Inl e, w)
      | Inr t \<Rightarrow>
          (let transcript = cap_transcript t
           in if summary_provider config = ''anthropic''
              then generateWithAnthropic env transcript w
              else generateWithOpenAI env transcript w))"

text \<open>
  \<open>generateAndStoreSummary\<close>. \<open>uuid\<close> and \<open>now\<close> are what \<open>randomUUID()\<close> and \<open>Date.now()\<close>
  give inside \<open>insertSummary\<close>, if it is reached.
\<close>

definition generateAndStoreSummary ::
  "GroupArchiveConfig \<Rightarrow> backends \<Rightarrow> string \<times> int \<Rightarrow> string \<Rightarrow> string \<Rightarrow> world
     \<Rightarrow> (error + string) \<times> world" where
  "generateAndStoreSummary config env fresh groupJid date w =
     (case getSummary (db w) groupJid date of
        Some existing \<Rightarrow> (Inr (s_summary_text existing), w)
      | None \<Rightarrow>
          (case midnightUtcForDate date (timezone config) of
             Inl e \<Rightarrow> (Inl e, w)
           | Inr dayStart \<Rightarrow>
               (let dayEnd = map_option (\<lambda>s. s + 86400000) dayStart;
                    msgs = getMessagesByGroupAndDateRange (db w) groupJid dayStart dayEnd
                in if length msgs = 0 then (Inr [], w)
                   else
                     (let w1 = w\<lparr>logs := logs w @ [InfoGenerating groupJid date (length msgs)]\<rparr>
                      in case generateSummary config env msgs w1 of
                           (Inl e, w2) \<Rightarrow> (Inl e, w2)
                         | (Inr summaryText, w2) \<Rightarrow>
                             (case insertSummary (db w2) (fst fresh) (snd fresh) groupJid date
                                     summaryText (int (length msgs)) of
                                Inl e \<Rightarrow> (Inl e, w2)
                              | Inr db' \<Rightarrow> (Inr summaryText, w2\<lparr>db := db'\<rparr>))))))"

subsection \<open>The scheduler\<close>

definition getYesterdayDate :: "timezone \<Rightarrow> int \<Rightarrow> error + string" where
  "getYesterdayDate tz now = format_date tz (time_clip (now - 86400000))"

definition currentTimeInTimezone :: "timezone \<Rightarrow> int \<Rightarrow> string" where
  "currentTimeInTimezone tz now = format_hm tz now"

text \<open>
  The loop \<open>for (const groupJid of groupJids)\<close> with its \<open>try\<close>/\<open>catch\<close>. \<open>fresh k\<close> is the
  pair (\<open>randomUUID()\<close>, \<open>Date.now()\<close>) available to the \<open>k\<close>-th call of the pipeline. The
  function also returns what the source does not keep: each group the pipeline was called
  for, in order, with the outcome of the call.
\<close>

fun run_groups ::
  "GroupArchiveConfig \<Rightarrow> backends \<Rightarrow> (nat \<Rightarrow> string \<times> int) \<Rightarrow> string \<Rightarrow> nat \<Rightarrow> string list
     \<Rightarrow> world \<Rightarrow> (string \<times> (error + string)) list \<times> world" where
  "run_groups config env fresh yesterday k [] w = ([], w)"
| "run_groups config env fresh yesterday k (groupJid # rest) w =
     (case generateAndStoreSummary config env (fresh k) groupJid yesterday w of
        (r, w1) \<Rightarrow>
          (let w2 = (case r of
                       Inl err \<Rightarrow> w1\<lparr>logs := logs w1 @ [WarnSummaryFailed groupJid err]\<rparr>
                     | Inr _ \<Rightarrow> w1)
           in case run_groups config env fresh yesterday (Suc k) rest w2 of
                (rs, w3) \<Rightarrow> ((groupJid, r) # rs, w3)))"

text \<open>
  How a tick ends: at the first \<open>return\<close> (not the trigger time), at the second (already
  ran), by an exception that leaves \<open>tick\<close>, or at its end, after the loop.
\<close>

datatype tick_end =
    NotTriggerTime
  | AlreadyRan
  | Threw error
  | Done "(string \<times> (error + string)) list"

text \<open>
  \<open>tick\<close>. The variable \<open>lastRunDate\<close> of the closure is passed in and out. \<open>now\<close> is the
  clock, read by \<open>currentTimeInTimezone\<close> and by \<open>getYesterdayDate\<close>.
\<close>

definition tick ::
  "GroupArchiveConfig \<Rightarrow> backends \<Rightarrow> (nat \<Rightarrow> string \<times> int) \<Rightarrow> int \<Rightarrow> string option \<times> world
     \<Rightarrow> tick_end \<times> string option \<times> world" where
  "tick config env fresh now st =
     (case st of (lastRunDate, w) \<Rightarrow>
        (let currentTime = currentTimeInTimezone (timezone config) now
         in if currentTime \<noteq> scheduledTime config then (NotTriggerTime, lastRunDate, w)
            else
              (case getYesterdayDate (timezone config) now of
                 Inl e \<Rightarrow> (Threw e, lastRunDate, w)
               | Inr yesterday \<Rightarrow>
                   (if lastRunDate = Some yesterday then (AlreadyRan, lastRunDate, w)
                    else
                      (let w1 = w\<lparr>logs := logs w @ [InfoSchedulerTriggered yesterday]\<rparr>
                       in case midnightUtcForDate yesterday (timezone config) of
                            Inl e \<Rightarrow> (Threw e, Some yesterday, w1)
                          | Inr dayStart \<Rightarrow>
                              (let dayEnd = map_option (\<lambda>s. s + 86400000) dayStart;
                                   groupJids = getGroupsWithMessagesOnDate (db w1) dayStart dayEnd
                               in case run_groups config env fresh yesterday 0 groupJids w1 of
                                    (rs, w2) \<Rightarrow>
                                      (Done rs, Some yesterday,
                                       w2\<lparr>logs := logs w2 @
                                            [InfoSchedulerDone (length groupJids) yesterday]\<rparr>)))))))"

subsection \<open>The capture handler\<close>

text \<open>
  The inbound event and the hook context. Of \<open>metadata\<close> the handler reads \<open>groupName\<close> and
  \<open>pushName\<close> and takes the \<open>JSON.stringify\<close> rendering, here the field \<open>md_json\<close>.
  \<open>content\<close> is optional, as the \<open>?.\<close> of the source allows.
\<close>

record metadata =
  md_groupName :: "string option"
  md_pushName :: "string option"
  md_json :: string

record event =
  ev_from :: string
  ev_content :: "string option"
  ev_timestamp :: "int option"
  ev_metadata :: "metadata option"

record hookCtx =
  channelId :: string
  conversationId :: "string option"

text \<open>
  The handler returned by \<open>createCaptureHandler\<close>. \<open>uuid\<close> and \<open>now\<close> are \<open>randomUUID()\<close> and
  \<open>Date.now()\<close>. The embedding request is started and not awaited: it is added to
  \<open>embed_jobs\<close>. An exception of \<open>insertMessage\<close> leaves the handler.
\<close>

definition captureHandler ::
  "string \<Rightarrow> int \<Rightarrow> event \<Rightarrow> hookCtx \<Rightarrow> world \<Rightarrow> error + world" where
  "captureHandler uuid now ev hc w =
     (if channelId hc \<noteq> ''whatsapp'' then Inr w
      else
        (case conversationId hc of
           None \<Rightarrow> Inr w
         | Some groupJid \<Rightarrow>
             (if \<not> endsWith groupJid ''@g.us'' then Inr w
              else
                (case map_option trim (ev_content ev) of
                   None \<Rightarrow> Inr w
                 | Some content \<Rightarrow>
                     (if content = [] then Inr w
                      else
                        (let groupName =
                               (case ev_metadata ev of None \<Rightarrow> None | Some md \<Rightarrow> md_groupName md);
                             senderName =
                               (case ev_metadata ev of None \<Rightarrow> None | Some md \<Rightarrow> md_pushName md);
                             db1 = upsertGroup (db w) now groupJid groupName
                         in case insertMessage db1 uuid
                                   \<lparr>m_id = [], m_group_jid = groupJid, m_sender_id = ev_from ev,
                                     m_sender_name = senderName, m_content = content,
                                     m_timestamp =
                                       (case ev_timestamp ev of Some t \<Rightarrow> t | None \<Rightarrow> now),
                                     m_metadata = map_option md_json (ev_metadata ev)\<rparr> of
                              Inl e \<Rightarrow> Inl e
                            | Inr (messageId, db2) \<Rightarrow>
                                (let w1 = w\<lparr>db := db2\<rparr>
                                 in if vectorEnabled (db w1)
                                    then Inr (w1\<lparr>embed_jobs := embed_jobs w1 @ [(messageId, content)]\<rparr>)
                                    else Inr w1)))))))"

text \<open>
  The two callbacks of \<open>embed(content).then(...)\<close>: when the embedding arrives it is written
  (an exception of the write is not caught); when the request fails a warning is logged.
\<close>

definition settle_embedding :: "string \<Rightarrow> error + real list \<Rightarrow> world \<Rightarrow> error + world" where
  "settle_embedding messageId r w =
     (case r of
        Inr vec \<Rightarrow>
          (case insertEmbedding (db w) messageId vec of
             Inl e \<Rightarrow> Inl e
           | Inr db' \<Rightarrow> Inr (w\<lparr>db := db'\<rparr>))
      | Inl err \<Rightarrow> Inr (w\<lparr>logs := logs w @ [WarnEmbeddingFailed err]\<rparr>))"

section \<open>Observations and sample data\<close>

text \<open>
  What a query on the store would show: the rows of \<open>messages\<close> with a given id, the
  \<open>message_count\<close> of the rows of \<open>groups\<close> with a given jid, and the embeddings stored
  under a message id.
\<close>

definition rows_with_id :: "ArchiveDb \<Rightarrow> string \<Rightarrow> MessageRow list" where
  "rows_with_id d i = filter (\<lambda>m. m_id m = i) (messages d)"

definition message_count_of :: "ArchiveDb \<Rightarrow> string \<Rightarrow> int list" where
  "message_count_of d jid = map g_message_count (filter (\<lambda>g. g_jid g = jid) (groups d))"

definition embeddings_of :: "ArchiveDb \<Rightarrow> string \<Rightarrow> real list list" where
  "embeddings_of d messageId = map snd (filter (\<lambda>e. fst e = messageId) (message_embeddings d))"

text \<open>
  The rows that a search ranks: every stored message joined with its embedding, with the
  score 1 minus the distance of the embedding from the query, restricted to a group if one
  is given (a string that is not empty).
\<close>

definition group_selected :: "string option \<Rightarrow> MessageRow \<Rightarrow> bool" where
  "group_selected g m = (case g of None \<Rightarrow> True | Some j \<Rightarrow> j = [] \<or> m_group_jid m = j)"

definition candidates :: "ArchiveDb \<Rightarrow> (real list \<Rightarrow> real list \<Rightarrow> real) \<Rightarrow> real list
    \<Rightarrow> string option \<Rightarrow> (MessageRow \<times> real) list" where
  "candidates d cosd q g =
     concat (map (\<lambda>e. map (\<lambda>m. (m, 1 - cosd (snd e) q))
                            (filter (\<lambda>m. m_id m = fst e \<and> group_selected g m) (messages d)))
                 (message_embeddings d))"

text \<open>
  The state after one round of the scheduler's loop: the pipeline has been called for the
  group, and a warning has been logged if the call threw. And the transcript that the
  pipeline renders for a group and a range.
\<close>

definition after_round ::
  "GroupArchiveConfig \<Rightarrow> backends \<Rightarrow> string \<times> int \<Rightarrow> string \<Rightarrow> string \<Rightarrow> world \<Rightarrow> world" where
  "after_round config env fr g y w =
     (case generateAndStoreSummary config env fr g y w of
        (Inl err, w1) \<Rightarrow> w1\<lparr>logs := logs w1 @ [WarnSummaryFailed g err]\<rparr>
      | (Inr t, w1) \<Rightarrow> w1)"

definition transcript_of :: "ArchiveDb \<Rightarrow> string \<Rightarrow> int option \<Rightarrow> string" where
  "transcript_of d g dayStart =
     (case formatTranscript (getMessagesByGroupAndDateRange d g dayStart
             (map_option (\<lambda>s. s + 86400000) dayStart)) of
        Inl e \<Rightarrow> []
      | Inr t \<Rightarrow> t)"

definition provider_of :: "GroupArchiveConfig \<Rightarrow> string" where
  "provider_of config =
     (if summary_provider config = ''anthropic'' then ''anthropic'' else ''openai'')"



text \<open>The row of a group, as \<open>upsertGroup\<close> creates it at time 0.\<close>

definition group_row :: "string \<Rightarrow> GroupRow" where
  "group_row jid = \<lparr>g_jid = jid, g_name = None, g_first_seen = 0, g_last_message = Some 0,
                     g_message_count = 1\<rparr>"

text \<open>A message sent at 2024-06-15T12:00:00Z, and a state whose store holds it.\<close>

definition msg0 :: MessageRow where
  "msg0 = \<lparr>m_id = ''id-1'', m_group_jid = ''g1@g.us'', m_sender_id = ''alice'',
           m_sender_name = None, m_content = ''hello'', m_timestamp = 1718452800000,
           m_metadata = None\<rparr>"

definition world1 :: world where
  "world1 = \<lparr>db = \<lparr>groups = [group_row ''g1@g.us''], messages = [msg0], daily_summaries = [],
                   message_embeddings = [], vecAvailable = False, dims = 1536\<rparr>,
              requests = [], logs = [], embed_jobs = []\<rparr>"

text \<open>\<open>world1\<close> after a summary of that day has been generated and stored.\<close>

definition summary0 :: DailySummaryRow where
  "summary0 = \<lparr>s_id = ''s1'', s_group_jid = ''g1@g.us'', s_date = ''2024-06-15'',
               s_summary_text = ''summary'', s_message_count = 1, s_created_at = 10\<rparr>"

definition world2 :: world where
  "world2 = \<lparr>db = \<lparr>groups = [group_row ''g1@g.us''], messages = [msg0],
                   daily_summaries = [summary0],
                   message_embeddings = [], vecAvailable = False, dims = 1536\<rparr>,
              requests = [(''openai'', ''[12:00] alice: hello'')],
              logs = [InfoGenerating ''g1@g.us'' ''2024-06-15'' 1], embed_jobs = []\<rparr>"


text \<open>
  Time zones. \<open>utc_plus2\<close> is two hours ahead of UTC all year. \<open>sydney\<close> is
  Australia/Sydney around the start of daylight saving in 2024: UTC+10 until
  2024-10-05T16:00:00Z (02:00 local time on 6 October), UTC+11 from then on. \<open>new_york\<close>
  is America/New_York around the start of daylight saving in 2024: UTC-5 until
  2024-03-10T07:00:00Z (02:00 local time on 10 March), UTC-4 from then on.
\<close>

definition utc_plus2 :: timezone where
  "utc_plus2 t = 7200000"

definition sydney :: timezone where
  "sydney t = (if t < 1728144000000 then 36000000 else 39600000)"

definition new_york :: timezone where
  "new_york t = (if t < 1710054000000 then - 18000000 else - 14400000)"

definition config0 :: GroupArchiveConfig where
  "config0 = \<lparr>summary_provider = ''openai'', scheduledTime = ''00:00'', timezone = utc_plus2\<rparr>"

definition config_ny :: GroupArchiveConfig where
  "config_ny = \<lparr>summary_provider = ''openai'', scheduledTime = ''00:00'', timezone = new_york\<rparr>"

text \<open>
  Backends: one that always answers, one whose first request fails, one whose second
  request fails.
\<close>

definition steady :: backends where
  "steady = \<lparr>openai = (\<lambda>n t. Inr ''summary''), anthropic = (\<lambda>n t. Inr ''summary'')\<rparr>"

definition flaky :: backends where
  "flaky = \<lparr>openai = (\<lambda>n t. if n = 0 then Inl (BackendError ''503'') else Inr ''summary''),
            anthropic = (\<lambda>n t. Inr ''summary'')\<rparr>"

definition second_fails :: backends where
  "second_fails =
     \<lparr>openai = (\<lambda>n t. if n = 1 then Inl (BackendError ''500'') else Inr ''summary''),
      anthropic = (\<lambda>n t. Inr ''summary'')\<rparr>"

text \<open>The ids and clock readings handed to the calls of the pipeline in a scheduler run.\<close>

definition fresh0 :: "nat \<Rightarrow> string \<times> int" where
  "fresh0 k = (replicate (Suc k) (CHR ''s''), int k)"

text \<open>
  A store with one message sent at 2024-03-10T17:00:00Z, which is 13:00 on 10 March in
  New York, and the state after the scheduler has run for 9 March.
\<close>

definition msg_ny :: MessageRow where
  "msg_ny = \<lparr>m_id = ''id-9'', m_group_jid = ''g1@g.us'', m_sender_id = ''alice'',
     m_sender_name = None, m_content = ''hello'', m_timestamp = 1710090000000,
     m_metadata = None\<rparr>"

definition world_ny :: world where
  "world_ny = \<lparr>db = \<lparr>groups = [group_row ''g1@g.us''], messages = [msg_ny],
       daily_summaries = [],
       message_embeddings = [], vecAvailable = False, dims = 1536\<rparr>,
     requests = [], logs = [], embed_jobs = []\<rparr>"

definition world_ny_ran :: world where
  "world_ny_ran = world_ny\<lparr>logs :=
     [InfoSchedulerTriggered ''2024-03-09'', InfoSchedulerDone 0 ''2024-03-09'']\<rparr>"

text \<open>
  Three groups with one message each at 2024-06-14T12:00:00Z.
\<close>

definition msg_of :: "string \<Rightarrow> string \<Rightarrow> MessageRow" where
  "msg_of i g = \<lparr>m_id = i, m_group_jid = g, m_sender_id = ''alice'', m_sender_name = None,
     m_content = ''hello'', m_timestamp = 1718366400000, m_metadata = None\<rparr>"

definition world3 :: world where
  "world3 = \<lparr>db = \<lparr>groups = [group_row ''g1@g.us'', group_row ''g2@g.us'', group_row ''g3@g.us''],
       messages = [msg_of ''m1'' ''g1@g.us'', msg_of ''m2'' ''g2@g.us'', msg_of ''m3'' ''g3@g.us''],
       daily_summaries = [], message_embeddings = [], vecAvailable = False, dims = 1536\<rparr>,
     requests = [], logs = [], embed_jobs = []\<rparr>"

text \<open>
  A store with the vector extension, two dimensions and three embedded messages, and a
  distance to search it with: 0 between equal vectors, 2 between opposite ones, 1
  otherwise.
\<close>

definition db_vec :: ArchiveDb where
  "db_vec = \<lparr>groups = [group_row ''g1@g.us'', group_row ''g2@g.us''], messages =
       [\<lparr>m_id = ''a'', m_group_jid = ''g1@g.us'', m_sender_id = ''alice'', m_sender_name = None,
         m_content = ''north'', m_timestamp = 1, m_metadata = None\<rparr>,
        \<lparr>m_id = ''b'', m_group_jid = ''g2@g.us'', m_sender_id = ''bob'', m_sender_name = None,
         m_content = ''east'', m_timestamp = 2, m_metadata = None\<rparr>,
        \<lparr>m_id = ''c'', m_group_jid = ''g1@g.us'', m_sender_id = ''carol'', m_sender_name = None,
         m_content = ''south'', m_timestamp = 3, m_metadata = None\<rparr>],
     daily_summaries = [],
     message_embeddings = [(''a'', [0, 1]), (''b'', [1, 0]), (''c'', [0, -1])],
     vecAvailable = True, dims = 2\<rparr>"

definition sample_distance :: "real list \<Rightarrow> real list \<Rightarrow> real" where
  "sample_distance e q = (if e = q then 0 else if e = map uminus q then 2 else 1)"

text \<open>
  An inbound event whose content is white space only, in a group conversation, and an
  event with a text.
\<close>

definition blank_event :: event where
  "blank_event = \<lparr>ev_from = ''alice'', ev_content = Some [CHR '' '', CHR 9, CHR 10],
                  ev_timestamp = None, ev_metadata = None\<rparr>"

definition group_ctx :: hookCtx where
  "group_ctx = \<lparr>channelId = ''whatsapp'', conversationId = Some ''g1@g.us''\<rparr>"





section \<open>Properties\<close>

subsection \<open>Lists\<close>

lemma find_app:
  "find P (xs @ ys) = (case find P xs of None \<Rightarrow> find P ys | Some x \<Rightarrow> Some x)"
  by (induction xs) auto

lemma find_filter_None: "(\<And>x. Q x \<Longrightarrow> \<not> P x) \<Longrightarrow> find P (filter Q xs) = None"
  by (induction xs) auto

lemma distinct_filter_le1:
  "distinct (map f xs) \<Longrightarrow> length (filter (\<lambda>x. f x = i) xs) \<le> 1"
  by (induction xs) (auto simp: filter_empty_conv image_iff)

lemma sorted_wrt_take: "sorted_wrt P xs \<Longrightarrow> sorted_wrt P (take n xs)"
  by (induction xs arbitrary: n) (auto simp: take_Cons split: nat.splits dest: in_set_takeD)

lemma set_first_occurrences: "set (first_occurrences xs) = set xs"
  by (simp add: first_occurrences_def)

lemma distinct_first_occurrences: "distinct (first_occurrences xs)"
  by (simp add: first_occurrences_def)

subsection \<open>Groups and messages\<close>

lemma messages_upsertGroup: "messages (upsertGroup d now jid name) = messages d"
  by (simp add: upsertGroup_def)

lemma has_group_upsertGroup: "has_group (upsertGroup d now jid name) jid"
proof (cases "\<exists>g \<in> set (groups d). g_jid g = jid")
  case True
  then obtain g where "g \<in> set (groups d)" "g_jid g = jid" by blast
  then have "\<exists>g' \<in> set (map (\<lambda>g. if g_jid g = jid then g\<lparr>g_name := a g, g_last_message := b,
                 g_message_count := c g\<rparr> else g) (groups d)). g_jid g' = jid" for a b c
    by (intro bexI [of _ "g\<lparr>g_name := a g, g_last_message := b, g_message_count := c g\<rparr>"])
      (auto simp: image_iff intro!: bexI [of _ g])
  with True show ?thesis
    by (simp add: upsertGroup_def has_group_def)
next
  case False
  then show ?thesis
    by (simp add: upsertGroup_def has_group_def)
qed

text \<open>\<open>upsertGroup\<close> sets the count to 1 for a new group and adds 1 for a known one.\<close>

lemma count_upsertGroup:
  "message_count_of (upsertGroup d now jid name) jid =
     (if message_count_of d jid = [] then [1] else map (\<lambda>c. c + 1) (message_count_of d jid))"
  by (auto simp: upsertGroup_def message_count_of_def filter_map o_def filter_empty_conv
           intro!: map_cong filter_cong)

text \<open>
  \<open>insertMessage\<close> under an id that is taken stores nothing and does not throw; under a new
  id it stores one row if the group has a row, and throws otherwise.
\<close>

lemma insertMessage_present:
  "rows_with_id d uuid \<noteq> [] \<Longrightarrow> insertMessage d uuid msg = Inr (uuid, d)"
  by (auto simp: insertMessage_def rows_with_id_def filter_empty_conv)

lemma insertMessage_new:
  "rows_with_id d uuid = [] \<Longrightarrow> has_group d (m_group_jid msg) \<Longrightarrow>
     insertMessage d uuid msg = Inr (uuid, d\<lparr>messages := messages d @ [msg\<lparr>m_id := uuid\<rparr>]\<rparr>)"
  by (auto simp: insertMessage_def rows_with_id_def filter_empty_conv)

lemma insertMessage_no_group:
  "rows_with_id d uuid = [] \<Longrightarrow> \<not> has_group d (m_group_jid msg) \<Longrightarrow>
     insertMessage d uuid msg = Inl ForeignKeyViolation"
  by (auto simp: insertMessage_def rows_with_id_def filter_empty_conv)

text \<open>
  One ingestion, \<open>upsertGroup\<close> followed by \<open>insertMessage\<close>, under an id that is not in the
  store: one row more, and one more in the count of the group.
\<close>

lemma ingest_new_id:
  assumes "rows_with_id d uuid = []" and "m_group_jid msg = jid"
  shows "\<exists>d'. insertMessage (upsertGroup d now jid name) uuid msg = Inr (uuid, d') \<and>
           messages d' = messages d @ [msg\<lparr>m_id := uuid\<rparr>] \<and>
           message_count_of d' jid =
             (if message_count_of d jid = [] then [1]
              else map (\<lambda>c. c + 1) (message_count_of d jid))"
proof -
  let ?d1 = "upsertGroup d now jid name"
  have "rows_with_id ?d1 uuid = []"
    using assms(1) by (simp add: rows_with_id_def messages_upsertGroup)
  moreover have "has_group ?d1 (m_group_jid msg)"
    unfolding assms(2) by (rule has_group_upsertGroup)
  ultimately have "insertMessage ?d1 uuid msg
      = Inr (uuid, ?d1\<lparr>messages := messages ?d1 @ [msg\<lparr>m_id := uuid\<rparr>]\<rparr>)"
    by (rule insertMessage_new)
  moreover have "message_count_of (?d1\<lparr>messages := messages ?d1 @ [msg\<lparr>m_id := uuid\<rparr>]\<rparr>) jid
      = message_count_of ?d1 jid"
    by (simp add: message_count_of_def)
  ultimately show ?thesis
    by (simp add: messages_upsertGroup count_upsertGroup)
qed


subsection \<open>Summaries\<close>

lemma getSummary_insertSummary:
  assumes "insertSummary d uuid now g dt text n = Inr d'"
  shows "getSummary d' g dt =
     Some \<lparr>s_id = uuid, s_group_jid = g, s_date = dt, s_summary_text = text,
           s_message_count = n, s_created_at = now\<rparr>"
proof -
  have "find (\<lambda>s. s_group_jid s = g \<and> s_date s = dt)
          (filter (\<lambda>s. s_id s \<noteq> uuid \<and> \<not> (s_group_jid s = g \<and> s_date s = dt))
             (daily_summaries d)) = None"
    by (rule find_filter_None) auto
  moreover from assms have "d' = d\<lparr>daily_summaries :=
          filter (\<lambda>s. s_id s \<noteq> uuid \<and> \<not> (s_group_jid s = g \<and> s_date s = dt))
            (daily_summaries d) @
          [\<lparr>s_id = uuid, s_group_jid = g, s_date = dt, s_summary_text = text,
            s_message_count = n, s_created_at = now\<rparr>]\<rparr>"
    by (simp add: insertSummary_def split: if_splits)
  ultimately show ?thesis
    by (simp add: getSummary_def find_app)
qed

lemma requests_generateSummary:
  "length (requests (snd (generateSummary config env msgs w))) \<le> Suc (length (requests w))"
  by (simp add: generateSummary_def generateWithAnthropic_def generateWithOpenAI_def Let_def
      split: sum.splits)

lemma logs_generateSummary: "logs (snd (generateSummary config env msgs w)) = logs w"
  by (simp add: generateSummary_def generateWithAnthropic_def generateWithOpenAI_def Let_def
      split: sum.splits)

lemma requests_generateSummary_eq:
  "formatTranscript msgs = Inr t \<Longrightarrow>
   requests (snd (generateSummary config env msgs w)) =
     requests w @ [(if summary_provider config = ''anthropic'' then ''anthropic'' else ''openai'',
                    cap_transcript t)]"
  by (simp add: generateSummary_def generateWithAnthropic_def generateWithOpenAI_def Let_def)

text \<open>A stored summary is returned as it is, and nothing changes: no request is sent.\<close>

lemma cache_hit:
  "getSummary (db w) g dt = Some row \<Longrightarrow>
     generateAndStoreSummary config env fresh g dt w = (Inr (s_summary_text row), w)"
  by (simp add: generateAndStoreSummary_def)

text \<open>After a call that returned a text, a second call returns the same text and changes nothing.\<close>

lemma returned_then_stable:
  assumes "generateAndStoreSummary config env fresh g dt w = (Inr text, w1)"
  shows "generateAndStoreSummary config env fresh' g dt w1 = (Inr text, w1)"
proof (cases "getSummary (db w) g dt")
  case (Some row)
  with assms show ?thesis by (auto simp: generateAndStoreSummary_def)
next
  case None
  show ?thesis
  proof (cases "midnightUtcForDate dt (timezone config)")
    case (Inl e)
    with None assms show ?thesis by (simp add: generateAndStoreSummary_def)
  next
    case (Inr dayStart)
    let ?msgs = "getMessagesByGroupAndDateRange (db w) g dayStart
                   (map_option (\<lambda>s. s + 86400000) dayStart)"
    show ?thesis
    proof (cases "?msgs = []")
      case True
      with None Inr assms have "text = []" "w1 = w"
        by (auto simp: generateAndStoreSummary_def)
      with None Inr True show ?thesis by (simp add: generateAndStoreSummary_def)
    next
      case False
      let ?w1 = "w\<lparr>logs := logs w @ [InfoGenerating g dt (length ?msgs)]\<rparr>"
      obtain r w2 where gs: "generateSummary config env ?msgs ?w1 = (r, w2)"
        by (cases "generateSummary config env ?msgs ?w1")
      with None Inr False assms obtain db' where "r = Inr text"
        and ins: "insertSummary (db w2) (fst fresh) (snd fresh) g dt text (int (length ?msgs))
                    = Inr db'"
        and "w1 = w2\<lparr>db := db'\<rparr>"
        by (auto simp: generateAndStoreSummary_def Let_def split: sum.splits)
      then show ?thesis
        by (simp add: getSummary_insertSummary [OF ins] generateAndStoreSummary_def)
    qed
  qed
qed

lemma requests_generateAndStoreSummary:
  "length (requests (snd (generateAndStoreSummary config env fresh g dt w)))
     \<le> Suc (length (requests w))"
proof -
  have "length (requests (snd (generateSummary config env msgs (w\<lparr>logs := l\<rparr>))))
          \<le> Suc (length (requests w))" for msgs l
    using requests_generateSummary [of config env msgs "w\<lparr>logs := l\<rparr>"] by simp
  then show ?thesis
    by (auto simp: generateAndStoreSummary_def Let_def split: option.splits sum.splits prod.splits
        dest!: arg_cong [where f = snd] )
qed

lemma logs_pipeline_mono:
  "set (logs w) \<subseteq> set (logs (snd (generateAndStoreSummary config env fr g y w)))"
proof -
  have *: "logs w2 = logs w1" if "generateSummary config env msgs w1 = (r, w2)" for msgs w1 r w2
    using logs_generateSummary [of config env msgs w1] that by simp
  show ?thesis
    by (auto simp: generateAndStoreSummary_def Let_def dest!: *
        split: option.splits sum.splits prod.splits)
qed

subsection \<open>Evaluations on the sample data\<close>

lemma midnight_utc_plus2:
  "midnightUtcForDate ''2024-06-15'' utc_plus2 = Inr (Some 1718402400000)"
  by code_simp

lemma midnight_utc_plus2_next:
  "midnightUtcForDate ''2024-06-16'' utc_plus2 = Inr (Some 1718488800000)"
  by code_simp

lemma midnight_utc_plus2_before:
  "midnightUtcForDate ''2024-06-14'' utc_plus2 = Inr (Some 1718316000000)"
  by code_simp

lemma iso_noon_15: "toISOString (time_clip 1718452800000) = Inr ''2024-06-15T12:00:00.000Z''"
  by code_simp

lemma iso_noon_14: "toISOString (time_clip 1718366400000) = Inr ''2024-06-14T12:00:00.000Z''"
  by code_simp

lemma transcript_msg0: "formatTranscript [msg0] = Inr ''[12:00] alice: hello''"
  by (simp add: formatTranscript_def format_line_def iso_noon_15 slice_def msg0_def)


lemma transcript_msg_of: "formatTranscript [msg_of i g] = Inr ''[12:00] alice: hello''"
  by (simp add: formatTranscript_def format_line_def iso_noon_14 slice_def msg_of_def)

lemma msgs_world1:
  "getMessagesByGroupAndDateRange (db world1) ''g1@g.us'' (Some 1718402400000)
     (Some 1718488800000) = [msg0]"
  by (simp add: getMessagesByGroupAndDateRange_def world1_def msg0_def in_range_def)

lemma first_call_steady:
  "generateAndStoreSummary config0 steady (''s1'', 10) ''g1@g.us'' ''2024-06-15'' world1 =
     (Inr ''summary'', world2)"
  using msgs_world1
  by (simp add: generateAndStoreSummary_def getSummary_def config0_def midnight_utc_plus2
      generateSummary_def transcript_msg0 cap_transcript_def generateWithOpenAI_def steady_def
      world1_def world2_def summary0_def insertSummary_def has_group_def group_row_def)

lemma first_call_flaky:
  "generateAndStoreSummary config0 flaky (''s1'', 10) ''g1@g.us'' ''2024-06-15'' world1 =
     (Inl (BackendError ''503''),
      world1\<lparr>requests := [(''openai'', ''[12:00] alice: hello'')],
             logs := [InfoGenerating ''g1@g.us'' ''2024-06-15'' 1]\<rparr>)"
  using msgs_world1
  by (simp add: generateAndStoreSummary_def getSummary_def config0_def midnight_utc_plus2
      generateSummary_def transcript_msg0 cap_transcript_def generateWithOpenAI_def flaky_def
      world1_def)

lemma second_call_flaky:
  "generateAndStoreSummary config0 flaky (''s2'', 20) ''g1@g.us'' ''2024-06-15''
      (world1\<lparr>requests := [(''openai'', ''[12:00] alice: hello'')],
              logs := [InfoGenerating ''g1@g.us'' ''2024-06-15'' 1]\<rparr>) =
    (Inr ''summary'',
     \<lparr>db = \<lparr>groups = [group_row ''g1@g.us''], messages = [msg0],
            daily_summaries = [summary0\<lparr>s_id := ''s2'', s_created_at := 20\<rparr>],
            message_embeddings = [], vecAvailable = False, dims = 1536\<rparr>,
      requests = [(''openai'', ''[12:00] alice: hello''), (''openai'', ''[12:00] alice: hello'')],
      logs = [InfoGenerating ''g1@g.us'' ''2024-06-15'' 1,
              InfoGenerating ''g1@g.us'' ''2024-06-15'' 1],
      embed_jobs = []\<rparr>)"
  using msgs_world1
  by (simp add: generateAndStoreSummary_def getSummary_def config0_def midnight_utc_plus2
      generateSummary_def transcript_msg0 cap_transcript_def generateWithOpenAI_def flaky_def
      world1_def summary0_def insertSummary_def has_group_def group_row_def)

text \<open>
  C3, as stated, fails: the backend's answer to the first request is an error. The first
  call of \<open>generateAndStoreSummary\<close> throws and stores nothing, and the second call for the
  same group and date sends a second request: two requests for two calls.
\<close>

theorem C3_retry_counterexample:
  "fst (generateAndStoreSummary config0 flaky (''s1'', 10) ''g1@g.us'' ''2024-06-15'' world1)
     = Inl (BackendError ''503'')
   \<and> length (requests (snd (generateAndStoreSummary config0 flaky (''s2'', 20) ''g1@g.us''
        ''2024-06-15''
        (snd (generateAndStoreSummary config0 flaky (''s1'', 10) ''g1@g.us'' ''2024-06-15''
           world1)))))
     = 2"
  unfolding first_call_flaky fst_conv snd_conv second_call_flaky by simp

text \<open>
  C3, amended: where a summary row exists for the group and date,
  \<open>generateAndStoreSummary\<close> returns its text and changes nothing, so no request is sent to
  the backend. Where a first call returns a text (it does not throw), a second call for
  the same group and date returns the same text and changes nothing, and the two calls
  together have sent at most one request.
\<close>

theorem C3_cached_summary:
  "(getSummary (db w) g dt = Some row \<longrightarrow>
      generateAndStoreSummary config env fresh g dt w = (Inr (s_summary_text row), w)) \<and>
   (generateAndStoreSummary config env fresh g dt w = (Inr text, w1) \<longrightarrow>
      generateAndStoreSummary config env fresh' g dt w1 = (Inr text, w1) \<and>
      length (requests w1) \<le> Suc (length (requests w)))"
proof (intro conjI impI)
  assume "getSummary (db w) g dt = Some row"
  then show "generateAndStoreSummary config env fresh g dt w = (Inr (s_summary_text row), w)"
    by (rule cache_hit)
next
  assume a: "generateAndStoreSummary config env fresh g dt w = (Inr text, w1)"
  then show "generateAndStoreSummary config env fresh' g dt w1 = (Inr text, w1)"
    by (rule returned_then_stable)
  show "length (requests w1) \<le> Suc (length (requests w))"
    using requests_generateAndStoreSummary [of config env fresh g dt w] a by simp
qed

theorem C3_cached_summary_witness:
  "getSummary (db world2) ''g1@g.us'' ''2024-06-15'' = Some summary0 \<and>
   generateAndStoreSummary config0 steady (''s1'', 10) ''g1@g.us'' ''2024-06-15'' world1
     = (Inr ''summary'', world2) \<and>
   generateAndStoreSummary config0 steady (''s2'', 20) ''g1@g.us'' ''2024-06-15'' world2
     = (Inr ''summary'', world2) \<and>
   length (requests world1) = 0 \<and> length (requests world2) = 1"
proof -
  have stored: "getSummary (db world2) ''g1@g.us'' ''2024-06-15'' = Some summary0"
    by (simp add: getSummary_def world2_def summary0_def)
  have "s_summary_text summary0 = ''summary''"
    by (simp add: summary0_def)
  with stored first_call_steady
    C3_cached_summary [of world2 "''g1@g.us''" "''2024-06-15''" summary0 config0 steady
      "(''s2'', 20)" "''summary''" world2 "(''s2'', 20)"]
    C3_cached_summary [of world1 "''g1@g.us''" "''2024-06-15''" summary0 config0 steady
      "(''s1'', 10)" "''summary''" world2 "(''s2'', 20)"]
  show ?thesis by (simp add: world1_def world2_def)
qed

text \<open>
  C4: where no summary row exists for the group and date, the day's range is resolved and
  no message of the group lies in it, \<open>generateAndStoreSummary\<close> returns the empty string
  and changes nothing: no summary row is written, and \<open>getSummary\<close> still finds none.
\<close>

theorem C4_empty_day:
  assumes "getSummary (db w) groupJid date = None"
    and "midnightUtcForDate date (timezone config) = Inr dayStart"
    and "getMessagesByGroupAndDateRange (db w) groupJid dayStart
           (map_option (\<lambda>s. s + 86400000) dayStart) = []"
  shows "generateAndStoreSummary config env fresh groupJid date w = (Inr [], w)
         \<and> getSummary (db (snd (generateAndStoreSummary config env fresh groupJid date w)))
              groupJid date = None"
  using assms by (simp add: generateAndStoreSummary_def)

theorem C4_empty_day_witness:
  "getSummary (db world1) ''g1@g.us'' ''2024-06-16'' = None \<and>
   midnightUtcForDate ''2024-06-16'' (timezone config0) = Inr (Some 1718488800000) \<and>
   getMessagesByGroupAndDateRange (db world1) ''g1@g.us'' (Some 1718488800000)
     (Some 1718575200000) = [] \<and>
   generateAndStoreSummary config0 steady (''s1'', 10) ''g1@g.us'' ''2024-06-16'' world1
     = (Inr [], world1)"
proof -
  have a: "getSummary (db world1) ''g1@g.us'' ''2024-06-16'' = None"
    by (simp add: getSummary_def world1_def)
  have b: "midnightUtcForDate ''2024-06-16'' (timezone config0) = Inr (Some 1718488800000)"
    by (simp add: config0_def midnight_utc_plus2_next)
  have c: "getMessagesByGroupAndDateRange (db world1) ''g1@g.us'' (Some 1718488800000)
           (map_option (\<lambda>s. s + 86400000) (Some 1718488800000)) = []"
    by (simp add: getMessagesByGroupAndDateRange_def world1_def msg0_def in_range_def)
  from C4_empty_day [OF a b c, of steady "(''s1'', 10)"] a b c show ?thesis by simp
qed

subsection \<open>The transcript and its cap\<close>

lemma toISOString_valid: "\<exists>s. toISOString (Some t) = Inr s"
  by (simp add: toISOString_def split: prod.splits)

lemma map_lines_total:
  "(\<forall>m \<in> set msgs. time_clip (m_timestamp m) \<noteq> None) \<Longrightarrow> \<exists>ls. map_lines msgs = Inr ls"
proof (induction msgs)
  case Nil
  then show ?case by simp
next
  case (Cons m ms)
  then obtain t where "time_clip (m_timestamp m) = Some t" by auto
  then obtain l where "format_line m = Inr l"
    using toISOString_valid [of t] by (auto simp: format_line_def Let_def)
  moreover from Cons obtain ls where "map_lines ms = Inr ls" by auto
  ultimately show ?case by simp
qed





subsection \<open>Embeddings and search\<close>

text \<open>
  C6: without the vector extension \<open>insertEmbedding\<close> changes nothing. With it, a vector
  whose length is not the configured dimension is refused with \<open>DimensionMismatch\<close>, and a
  vector of the right length is written: afterwards it is the one embedding stored under
  the message id, the embeddings of the other messages are as before, and nothing else in
  the store has changed.
\<close>

theorem C6_insertEmbedding:
  "(\<not> vecAvailable d \<longrightarrow> insertEmbedding d messageId v = Inr d) \<and>
   (vecAvailable d \<and> length v \<noteq> dims d \<longrightarrow>
      insertEmbedding d messageId v = Inl DimensionMismatch) \<and>
   (vecAvailable d \<and> length v = dims d \<longrightarrow>
      (\<exists>d'. insertEmbedding d messageId v = Inr d' \<and>
            embeddings_of d' messageId = [v] \<and>
            (\<forall>other. other \<noteq> messageId \<longrightarrow> embeddings_of d' other = embeddings_of d other) \<and>
            d' = d\<lparr>message_embeddings := message_embeddings d'\<rparr>))"
  by (auto simp: insertEmbedding_def vec0_insert_or_replace_def embeddings_of_def
      intro!: filter_cong arg_cong [where f = "map snd"])

theorem C6_insertEmbedding_witness:
  "insertEmbedding (db_vec\<lparr>vecAvailable := False\<rparr>) ''a'' [1, 0]
     = Inr (db_vec\<lparr>vecAvailable := False\<rparr>) \<and>
   vecAvailable db_vec \<and> dims db_vec = 2 \<and>
   insertEmbedding db_vec ''a'' [1, 0, 0] = Inl DimensionMismatch \<and>
   (\<exists>d'. insertEmbedding db_vec ''a'' [1, 0] = Inr d' \<and> embeddings_of d' ''a'' = [[1, 0]] \<and>
      embeddings_of d' ''b'' = [[1, 0]] \<and> embeddings_of d' ''c'' = [[0, -1]])"
  using C6_insertEmbedding [of "db_vec\<lparr>vecAvailable := False\<rparr>" "''a''" "[1, 0]"]
    C6_insertEmbedding [of db_vec "''a''" "[1, 0, 0]"]
    C6_insertEmbedding [of db_vec "''a''" "[1, 0]"]
  by (auto simp: db_vec_def embeddings_of_def)

lemma sorted_order_by_score_desc:
  "sorted_wrt (\<lambda>a b. snd a \<ge> snd b) (order_by_score_desc rows)"
proof -
  have "sorted (map (\<lambda>r. - snd r) (order_by_score_desc rows))"
    unfolding order_by_score_desc_def by (rule sorted_sort_key)
  then show ?thesis
    by (simp add: sorted_wrt_map)
qed

lemma mset_order_by_score_desc: "mset (order_by_score_desc rows) = mset rows"
  by (simp add: order_by_score_desc_def)

lemma candidates_all: "joined d cosd q = candidates d cosd q None"
  by (simp add: joined_def candidates_def group_selected_def)

lemma candidates_empty_name: "joined d cosd q = candidates d cosd q (Some [])"
  by (simp add: joined_def candidates_def group_selected_def)

lemma candidates_group:
  "j \<noteq> [] \<Longrightarrow> filter (\<lambda>r. m_group_jid (fst r) = j) (joined d cosd q) = candidates d cosd q (Some j)"
  by (simp add: joined_def candidates_def group_selected_def filter_concat filter_map o_def)

text \<open>The search is the first rows of the ranked candidates.\<close>

lemma searchSimilar_ranked:
  "vecAvailable d \<Longrightarrow> q \<noteq> [] \<Longrightarrow>
     searchSimilar d cosd q limit g = sql_limit limit (order_by_score_desc (candidates d cosd q g))"
proof -
  assume v: "vecAvailable d" "q \<noteq> []"
  show ?thesis
  proof (cases g)
    case None
    with v show ?thesis
      by (simp add: searchSimilar_def candidates_all)
  next
    case (Some j)
    show ?thesis
    proof (cases "j = []")
      case True
      with v Some show ?thesis
        by (simp add: searchSimilar_def candidates_empty_name)
    next
      case False
      with v Some show ?thesis
        by (simp add: searchSimilar_def candidates_group)
    qed
  qed
qed

lemma top_rows:
  assumes "sorted_wrt (\<lambda>a b. snd a \<ge> (snd b :: real)) xs"
  shows "\<exists>rest. mset (sql_limit n xs @ rest) = mset xs \<and>
           (\<forall>a \<in> set (sql_limit n xs). \<forall>b \<in> set rest. snd b \<le> snd a) \<and>
           (0 \<le> n \<longrightarrow> length (sql_limit n xs) = min (nat n) (length xs)) \<and>
           (n < 0 \<longrightarrow> rest = [])"
proof (cases "n < 0")
  case True
  then show ?thesis by (intro exI [of _ "[]"]) (simp add: sql_limit_def)
next
  case False
  have "sorted_wrt (\<lambda>a b. snd a \<ge> snd b) (take (nat n) xs @ drop (nat n) xs)"
    using assms by simp
  then have "\<forall>a \<in> set (take (nat n) xs). \<forall>b \<in> set (drop (nat n) xs). snd b \<le> snd a"
    unfolding sorted_wrt_append by blast
  with False show ?thesis
    by (intro exI [of _ "drop (nat n) xs"]) (simp add: sql_limit_def min.commute)
qed


text \<open>
  C7: \<open>searchSimilar\<close> has no failing outcome. Without the vector extension, or for an
  empty query vector, it returns the empty list. Otherwise the result is the head of the
  ranking of the candidates (the stored messages joined with their embeddings, of the
  given group if a group is given as a string that is not empty): result and rows left out
  together are exactly the candidates, no row left out scores higher than a row returned,
  the number of rows returned is the smaller of \<open>limit\<close> and the number of candidates (for a
  limit that is not negative; a negative limit leaves no row out), the rows are in
  descending order of score, and the score of a row is 1 minus the cosine distance of its
  embedding from the query.
\<close>

theorem C7_searchSimilar:
  "(\<not> vecAvailable d \<or> q = [] \<longrightarrow> searchSimilar d cosd q limit g = []) \<and>
   (vecAvailable d \<and> q \<noteq> [] \<longrightarrow>
      (\<exists>rest. mset (searchSimilar d cosd q limit g @ rest) = mset (candidates d cosd q g) \<and>
              (\<forall>a \<in> set (searchSimilar d cosd q limit g). \<forall>b \<in> set rest. snd b \<le> snd a) \<and>
              (0 \<le> limit \<longrightarrow> length (searchSimilar d cosd q limit g)
                               = min (nat limit) (length (candidates d cosd q g))) \<and>
              (limit < 0 \<longrightarrow> rest = []))) \<and>
   (0 \<le> limit \<longrightarrow> length (searchSimilar d cosd q limit g) \<le> nat limit) \<and>
   sorted_wrt (\<lambda>a b. snd a \<ge> snd b) (searchSimilar d cosd q limit g) \<and>
   (\<forall>r \<in> set (searchSimilar d cosd q limit g).
      \<exists>e \<in> set (message_embeddings d). fst r \<in> set (messages d) \<and> m_id (fst r) = fst e \<and>
        snd r = 1 - cosd (snd e) q) \<and>
   (\<forall>j. g = Some j \<and> j \<noteq> [] \<longrightarrow>
      (\<forall>r \<in> set (searchSimilar d cosd q limit g). m_group_jid (fst r) = j))"
proof (intro conjI)
  show "\<not> vecAvailable d \<or> q = [] \<longrightarrow> searchSimilar d cosd q limit g = []"
    by (auto simp: searchSimilar_def)
  show "vecAvailable d \<and> q \<noteq> [] \<longrightarrow>
      (\<exists>rest. mset (searchSimilar d cosd q limit g @ rest) = mset (candidates d cosd q g) \<and>
              (\<forall>a \<in> set (searchSimilar d cosd q limit g). \<forall>b \<in> set rest. snd b \<le> snd a) \<and>
              (0 \<le> limit \<longrightarrow> length (searchSimilar d cosd q limit g)
                               = min (nat limit) (length (candidates d cosd q g))) \<and>
              (limit < 0 \<longrightarrow> rest = []))"
  proof
    assume "vecAvailable d \<and> q \<noteq> []"
    then have r: "searchSimilar d cosd q limit g
        = sql_limit limit (order_by_score_desc (candidates d cosd q g))"
      by (simp add: searchSimilar_ranked)
    from top_rows [OF sorted_order_by_score_desc, of limit "candidates d cosd q g"]
    show "\<exists>rest. mset (searchSimilar d cosd q limit g @ rest) = mset (candidates d cosd q g) \<and>
              (\<forall>a \<in> set (searchSimilar d cosd q limit g). \<forall>b \<in> set rest. snd b \<le> snd a) \<and>
              (0 \<le> limit \<longrightarrow> length (searchSimilar d cosd q limit g)
                               = min (nat limit) (length (candidates d cosd q g))) \<and>
              (limit < 0 \<longrightarrow> rest = [])"
      unfolding r by (simp add: mset_order_by_score_desc order_by_score_desc_def)
  qed
  show "0 \<le> limit \<longrightarrow> length (searchSimilar d cosd q limit g) \<le> nat limit"
    by (auto simp: searchSimilar_def sql_limit_def split: option.splits)
  show "sorted_wrt (\<lambda>a b. snd a \<ge> snd b) (searchSimilar d cosd q limit g)"
    by (auto simp: searchSimilar_def sql_limit_def sorted_wrt_take sorted_order_by_score_desc
        split: option.splits)
  have sub: "set (searchSimilar d cosd q limit g) \<subseteq> set (candidates d cosd q g)"
  proof (cases "vecAvailable d \<and> q \<noteq> []")
    case True
    then have "searchSimilar d cosd q limit g
        = sql_limit limit (order_by_score_desc (candidates d cosd q g))"
      by (simp add: searchSimilar_ranked)
    then show ?thesis
      by (auto simp: sql_limit_def order_by_score_desc_def dest: in_set_takeD split: if_splits)
  next
    case False
    then show ?thesis by (auto simp: searchSimilar_def)
  qed
  have cand: "\<exists>e \<in> set (message_embeddings d). fst r \<in> set (messages d) \<and> m_id (fst r) = fst e \<and>
        snd r = 1 - cosd (snd e) q \<and> group_selected g (fst r)"
    if "r \<in> set (candidates d cosd q g)" for r
  proof -
    from that obtain e m where "e \<in> set (message_embeddings d)" "m \<in> set (messages d)"
      "m_id m = fst e" "group_selected g m" "r = (m, 1 - cosd (snd e) q)"
      by (auto simp: candidates_def)
    then show ?thesis by (intro bexI [of _ e]) auto
  qed
  show "\<forall>r \<in> set (searchSimilar d cosd q limit g).
      \<exists>e \<in> set (message_embeddings d). fst r \<in> set (messages d) \<and> m_id (fst r) = fst e \<and>
        snd r = 1 - cosd (snd e) q"
    using sub cand by blast
  show "\<forall>j. g = Some j \<and> j \<noteq> [] \<longrightarrow>
      (\<forall>r \<in> set (searchSimilar d cosd q limit g). m_group_jid (fst r) = j)"
    using sub cand by (fastforce simp: group_selected_def)
qed

lemma search_top_one:
  "map (\<lambda>r. (m_id (fst r), snd r)) (searchSimilar db_vec sample_distance [0, -1] 1 None)
     = [(''c'', 1)]"
  by (simp add: searchSimilar_def db_vec_def joined_def sample_distance_def
      order_by_score_desc_def sql_limit_def)

lemma candidates_db_vec:
  "map (\<lambda>r. (m_id (fst r), snd r)) (candidates db_vec sample_distance [0, -1] None)
     = [(''a'', -1), (''b'', 0), (''c'', 1)]"
  by (simp add: candidates_def db_vec_def sample_distance_def group_selected_def)

lemma search_all_groups:
  "map (\<lambda>r. (m_id (fst r), snd r)) (searchSimilar db_vec sample_distance [0, 1] 2 None)
     = [(''a'', 1), (''b'', 0)]"
  by (simp add: searchSimilar_def db_vec_def joined_def sample_distance_def
      order_by_score_desc_def sql_limit_def)

lemma search_one_group:
  "map (\<lambda>r. (m_id (fst r), m_group_jid (fst r), snd r))
     (searchSimilar db_vec sample_distance [0, 1] 2 (Some ''g1@g.us''))
     = [(''a'', ''g1@g.us'', 1), (''c'', ''g1@g.us'', -1)]"
  by (simp add: searchSimilar_def db_vec_def joined_def sample_distance_def
      order_by_score_desc_def sql_limit_def)

theorem C7_searchSimilar_witness:
  "vecAvailable db_vec \<and> (0::int) \<le> 1 \<and>
   map (\<lambda>r. (m_id (fst r), snd r)) (candidates db_vec sample_distance [0, -1] None)
     = [(''a'', -1), (''b'', 0), (''c'', 1)] \<and>
   map (\<lambda>r. (m_id (fst r), snd r)) (searchSimilar db_vec sample_distance [0, -1] 1 None)
     = [(''c'', 1)] \<and>
   (\<exists>rest. mset (searchSimilar db_vec sample_distance [0, -1] 1 None @ rest)
             = mset (candidates db_vec sample_distance [0, -1] None) \<and> length rest = 2) \<and>
   map (\<lambda>r. (m_id (fst r), snd r)) (searchSimilar db_vec sample_distance [0, 1] 2 None)
     = [(''a'', 1), (''b'', 0)] \<and>
   length (searchSimilar db_vec sample_distance [0, 1] 2 None) \<le> 2 \<and>
   sorted_wrt (\<lambda>a b. snd a \<ge> snd b) (searchSimilar db_vec sample_distance [0, 1] 2 None) \<and>
   map (\<lambda>r. (m_id (fst r), m_group_jid (fst r), snd r))
     (searchSimilar db_vec sample_distance [0, 1] 2 (Some ''g1@g.us''))
     = [(''a'', ''g1@g.us'', 1), (''c'', ''g1@g.us'', -1)] \<and>
   searchSimilar db_vec sample_distance [] 2 None = [] \<and>
   searchSimilar (db_vec\<lparr>vecAvailable := False\<rparr>) sample_distance [0, 1] 2 None = []"
proof -
  have v: "vecAvailable db_vec" by (simp add: db_vec_def)
  from C7_searchSimilar [of db_vec "[0, -1]" sample_distance 1 None] v
  obtain rest where m: "mset (searchSimilar db_vec sample_distance [0, -1] 1 None @ rest)
             = mset (candidates db_vec sample_distance [0, -1] None)"
    by auto
  have "length (searchSimilar db_vec sample_distance [0, -1] 1 None) = 1"
    using search_top_one [THEN arg_cong, of length] by simp
  moreover have "length (candidates db_vec sample_distance [0, -1] None) = 3"
    using candidates_db_vec [THEN arg_cong, of length] by simp
  moreover have "length (searchSimilar db_vec sample_distance [0, -1] 1 None @ rest)
      = length (candidates db_vec sample_distance [0, -1] None)"
    using m by (rule mset_eq_length)
  ultimately have "length rest = 2" by simp
  with m have ex: "\<exists>rest. mset (searchSimilar db_vec sample_distance [0, -1] 1 None @ rest)
             = mset (candidates db_vec sample_distance [0, -1] None) \<and> length rest = 2"
    by blast
  show ?thesis
    using v ex C7_searchSimilar [of db_vec "[0, 1]" sample_distance 2 None]
      C7_searchSimilar [of db_vec "[]" sample_distance 2 None]
      C7_searchSimilar [of "db_vec\<lparr>vecAvailable := False\<rparr>" "[0, 1]" sample_distance 2 None]
      search_all_groups search_one_group search_top_one candidates_db_vec
    by simp
qed

subsection \<open>The scheduler\<close>

lemma db_generateSummary: "db (snd (generateSummary config env msgs w)) = db w"
  by (simp add: generateSummary_def generateWithAnthropic_def generateWithOpenAI_def Let_def
      split: sum.splits)

lemma find_filter_keeps_None: "find P xs = None \<Longrightarrow> find P (filter Q xs) = None"
  by (simp add: find_None_iff)

lemma insertSummary_frame:
  assumes "insertSummary d uuid now g y stxt n = Inr d'"
  shows "messages d' = messages d" and "groups d' = groups d"
    and "g' \<noteq> g \<Longrightarrow> getSummary d g' y' = None \<Longrightarrow> getSummary d' g' y' = None"
proof -
  from assms have d': "d' = d\<lparr>daily_summaries :=
          filter (\<lambda>s. s_id s \<noteq> uuid \<and> \<not> (s_group_jid s = g \<and> s_date s = y))
            (daily_summaries d) @
          [\<lparr>s_id = uuid, s_group_jid = g, s_date = y, s_summary_text = stxt,
            s_message_count = n, s_created_at = now\<rparr>]\<rparr>"
    by (simp add: insertSummary_def split: if_splits)
  show "messages d' = messages d" "groups d' = groups d"
    by (simp_all add: d')
  assume "g' \<noteq> g" "getSummary d g' y' = None"
  then show "getSummary d' g' y' = None"
    by (simp add: d' getSummary_def find_app find_filter_keeps_None)
qed

text \<open>The four ways a call of the pipeline ends.\<close>

lemma pipeline_outcome:
  "(\<exists>s. getSummary (db w) g y = Some s \<and>
        generateAndStoreSummary config env fr g y w = (Inr (s_summary_text s), w)) \<or>
   (\<exists>e. fst (generateAndStoreSummary config env fr g y w) = Inl e \<and>
        db (snd (generateAndStoreSummary config env fr g y w)) = db w) \<or>
   (\<exists>dayStart. midnightUtcForDate y (timezone config) = Inr dayStart \<and>
        getMessagesByGroupAndDateRange (db w) g dayStart (map_option (\<lambda>s. s + 86400000) dayStart) = [] \<and>
        generateAndStoreSummary config env fr g y w = (Inr [], w)) \<or>
   (\<exists>t n d'. insertSummary (db w) (fst fr) (snd fr) g y t n = Inr d' \<and>
        fst (generateAndStoreSummary config env fr g y w) = Inr t \<and>
        db (snd (generateAndStoreSummary config env fr g y w)) = d')"
proof (cases "getSummary (db w) g y")
  case (Some s)
  then show ?thesis by (simp add: generateAndStoreSummary_def)
next
  case None
  show ?thesis
  proof (cases "midnightUtcForDate y (timezone config)")
    case (Inl e)
    with None show ?thesis by (simp add: generateAndStoreSummary_def)
  next
    case (Inr dayStart)
    let ?msgs = "getMessagesByGroupAndDateRange (db w) g dayStart (map_option (\<lambda>s. s + 86400000) dayStart)"
    let ?w1 = "w\<lparr>logs := logs w @ [InfoGenerating g y (length ?msgs)]\<rparr>"
    show ?thesis
    proof (cases "?msgs = []")
      case True
      with None Inr show ?thesis by (simp add: generateAndStoreSummary_def)
    next
      case False
      obtain r w2 where gs: "generateSummary config env ?msgs ?w1 = (r, w2)"
        by (cases "generateSummary config env ?msgs ?w1")
      have db2: "db w2 = db w"
        using db_generateSummary [of config env ?msgs ?w1] gs by simp
      show ?thesis
      proof (cases r)
        case (Inl e)
        with None Inr False gs db2 show ?thesis
          by (simp add: generateAndStoreSummary_def Let_def)
      next
        case r: (Inr stxt)
        show ?thesis
        proof (cases "insertSummary (db w) (fst fr) (snd fr) g y stxt (int (length ?msgs))")
          case (Inl e)
          with None Inr False gs db2 r show ?thesis
            by (simp add: generateAndStoreSummary_def Let_def)
        next
          case i: (Inr d')
          have "fst (generateAndStoreSummary config env fr g y w) = Inr stxt"
               "db (snd (generateAndStoreSummary config env fr g y w)) = d'"
            using None Inr False gs db2 r i
            by (simp_all add: generateAndStoreSummary_def Let_def)
          with i show ?thesis by blast
        qed
      qed
    qed
  qed
qed

lemma pipeline_db:
  "db (snd (generateAndStoreSummary config env fr g y w)) = db w \<or>
   (\<exists>stxt n d'. insertSummary (db w) (fst fr) (snd fr) g y stxt n = Inr d' \<and>
        db (snd (generateAndStoreSummary config env fr g y w)) = d')"
  using pipeline_outcome [of w g y config env fr] by (elim disjE exE conjE) (simp, blast, simp, blast)

text \<open>A call of the pipeline leaves the messages as they are, and adds no summary for another group.\<close>

lemma pipeline_frame:
  assumes "generateAndStoreSummary config env fr g y w = (r, w1)"
  shows "messages (db w1) = messages (db w)"
    and "g' \<noteq> g \<Longrightarrow> getSummary (db w) g' y' = None \<Longrightarrow> getSummary (db w1) g' y' = None"
proof -
  from pipeline_db [of config env fr g y w] assms
  consider (same) "db w1 = db w"
    | (ins) stxt n d' where "insertSummary (db w) (fst fr) (snd fr) g y stxt n = Inr d'" "db w1 = d'"
    by auto
  then show "messages (db w1) = messages (db w)"
    by cases (simp_all add: insertSummary_frame(1))
  assume a: "g' \<noteq> g" "getSummary (db w) g' y' = None"
  from pipeline_db [of config env fr g y w] assms
  consider (same) "db w1 = db w"
    | (ins) stxt n d' where "insertSummary (db w) (fst fr) (snd fr) g y stxt n = Inr d'" "db w1 = d'"
    by auto
  then show "getSummary (db w1) g' y' = None"
    using a by cases (simp_all add: insertSummary_frame(3))
qed

text \<open>
  Where no summary is stored for the group and the day, the day has messages of the group
  and they render, the pipeline sends their transcript, capped, to the configured
  provider, whatever it then gets back.
\<close>

lemma pipeline_sends:
  assumes "getSummary (db w) g y = None"
    and "midnightUtcForDate y (timezone config) = Inr dayStart"
    and "getMessagesByGroupAndDateRange (db w) g dayStart (map_option (\<lambda>s. s + 86400000) dayStart) \<noteq> []"
    and "formatTranscript (getMessagesByGroupAndDateRange (db w) g dayStart
            (map_option (\<lambda>s. s + 86400000) dayStart)) = Inr t"
  shows "requests (snd (generateAndStoreSummary config env fr g y w))
           = requests w @ [(provider_of config, cap_transcript t)]"
proof -
  let ?msgs = "getMessagesByGroupAndDateRange (db w) g dayStart (map_option (\<lambda>s. s + 86400000) dayStart)"
  let ?w1 = "w\<lparr>logs := logs w @ [InfoGenerating g y (length ?msgs)]\<rparr>"
  obtain r w2 where gs: "generateSummary config env ?msgs ?w1 = (r, w2)"
    by (cases "generateSummary config env ?msgs ?w1")
  have "requests w2 = requests w @ [(provider_of config, cap_transcript t)]"
    using requests_generateSummary_eq [OF assms(4), of config env ?w1] gs
    by (simp add: provider_of_def)
  moreover have "requests (snd (generateAndStoreSummary config env fr g y w)) = requests w2"
  proof (cases r)
    case (Inl e)
    with assms(1-3) gs show ?thesis
      by (simp add: generateAndStoreSummary_def Let_def)
  next
    case r: (Inr stxt)
    show ?thesis
    proof (cases "insertSummary (db w2) (fst fr) (snd fr) g y stxt (int (length ?msgs))")
      case (Inl e)
      with assms(1-3) gs r show ?thesis
        by (simp add: generateAndStoreSummary_def Let_def)
    next
      case (Inr d')
      with assms(1-3) gs r show ?thesis
        by (simp add: generateAndStoreSummary_def Let_def)
    qed
  qed
  ultimately show ?thesis by simp
qed


lemma find_filter_Some: "find P xs = Some s \<Longrightarrow> Q s \<Longrightarrow> find P (filter Q xs) = Some s"
  by (induction xs) (auto split: if_splits)

lemma find_Some_set: "find P xs = Some s \<Longrightarrow> s \<in> set xs"
  by (induction xs) (auto split: if_splits)

lemma insertSummary_keeps:
  assumes "insertSummary d uuid now g' y' stxt n = Inr d'"
    and "getSummary d g y = Some s" and "g \<noteq> g'" and "s_id s \<noteq> uuid"
  shows "getSummary d' g y = Some s"
proof -
  from assms(1) have d': "d' = d\<lparr>daily_summaries :=
          filter (\<lambda>s. s_id s \<noteq> uuid \<and> \<not> (s_group_jid s = g' \<and> s_date s = y'))
            (daily_summaries d) @
          [\<lparr>s_id = uuid, s_group_jid = g', s_date = y', s_summary_text = stxt,
            s_message_count = n, s_created_at = now\<rparr>]\<rparr>"
    by (simp add: insertSummary_def split: if_splits)
  have "s \<in> set (daily_summaries d)"
    using assms(2) by (simp add: getSummary_def find_Some_set)
  moreover have "s_group_jid s = g"
    using assms(2) by (auto simp: getSummary_def find_Some_iff)
  ultimately have "find (\<lambda>s. s_group_jid s = g \<and> s_date s = y)
          (filter (\<lambda>s. s_id s \<noteq> uuid \<and> \<not> (s_group_jid s = g' \<and> s_date s = y'))
             (daily_summaries d)) = Some s"
    using assms(2-4) by (intro find_filter_Some) (simp_all add: getSummary_def)
  then show ?thesis
    by (simp add: d' getSummary_def find_app)
qed

lemma insertSummary_ids:
  assumes "insertSummary d uuid now g y stxt n = Inr d'" and "s \<in> set (daily_summaries d')"
  shows "s \<in> set (daily_summaries d) \<or> s_id s = uuid"
proof -
  from assms(1) have d': "d' = d\<lparr>daily_summaries :=
          filter (\<lambda>s. s_id s \<noteq> uuid \<and> \<not> (s_group_jid s = g \<and> s_date s = y))
            (daily_summaries d) @
          [\<lparr>s_id = uuid, s_group_jid = g, s_date = y, s_summary_text = stxt,
            s_message_count = n, s_created_at = now\<rparr>]\<rparr>"
    by (simp add: insertSummary_def split: if_splits)
  with assms(2) show ?thesis by auto
qed

lemma pipeline_ids:
  assumes "s \<in> set (daily_summaries (db (snd (generateAndStoreSummary config env fr g y w))))"
  shows "s \<in> set (daily_summaries (db w)) \<or> s_id s = fst fr"
  using pipeline_db [of config env fr g y w] assms insertSummary_ids by fastforce

lemma pipeline_keeps:
  assumes "getSummary (db w) g y = Some s" and "g \<noteq> g'" and "s_id s \<noteq> fst fr"
  shows "getSummary (db (snd (generateAndStoreSummary config env fr g' y' w))) g y = Some s"
  using pipeline_db [of config env fr g' y' w] assms insertSummary_keeps by fastforce

text \<open>
  A call of the pipeline that returns a text, for a group with messages in the range, leaves
  a stored summary of the group and the day with that text.
\<close>

lemma pipeline_stores:
  assumes "midnightUtcForDate y (timezone config) = Inr dayStart"
    and "getMessagesByGroupAndDateRange (db w) g dayStart (map_option (\<lambda>s. s + 86400000) dayStart) \<noteq> []"
    and "fst (generateAndStoreSummary config env fr g y w) = Inr t"
  shows "\<exists>s. getSummary (db (snd (generateAndStoreSummary config env fr g y w))) g y = Some s \<and>
             s_summary_text s = t"
  using pipeline_outcome [of w g y config env fr] assms
  by (elim disjE exE conjE) (auto simp: getSummary_insertSummary)


lemma after_round_eq:
  "generateAndStoreSummary config env fr g y w = (r, w1) \<Longrightarrow>
     after_round config env fr g y w =
       (case r of Inl err \<Rightarrow> w1\<lparr>logs := logs w1 @ [WarnSummaryFailed g err]\<rparr> | Inr _ \<Rightarrow> w1)"
  by (simp add: after_round_def split: sum.splits)

lemma run_groups_Cons:
  "run_groups config env fresh y k (g # gs) w =
     ((g, fst (generateAndStoreSummary config env (fresh k) g y w))
        # fst (run_groups config env fresh y (Suc k) gs (after_round config env (fresh k) g y w)),
      snd (run_groups config env fresh y (Suc k) gs (after_round config env (fresh k) g y w)))"
proof -
  obtain r w1 where p: "generateAndStoreSummary config env (fresh k) g y w = (r, w1)"
    by (cases "generateAndStoreSummary config env (fresh k) g y w")
  show ?thesis
    by (simp add: p after_round_eq [OF p] Let_def split: prod.splits)
qed

text \<open>
  The loop, round by round: the states \<open>ws\<close> it passes through, the call of the pipeline
  made in each, and the outcome recorded for it.
\<close>

lemma run_groups_chain:
  "\<exists>ws. length ws = Suc (length gs) \<and> ws ! 0 = w \<and>
        (\<forall>i < length gs.
            fst (run_groups config env fresh y k gs w) ! i =
              (gs ! i, fst (generateAndStoreSummary config env (fresh (k + i)) (gs ! i) y (ws ! i))) \<and>
            ws ! Suc i = after_round config env (fresh (k + i)) (gs ! i) y (ws ! i)) \<and>
        snd (run_groups config env fresh y k gs w) = ws ! length gs"
proof (induction gs arbitrary: k w)
  case Nil
  show ?case by (intro exI [of _ "[w]"]) simp
next
  case (Cons g gs)
  let ?w2 = "after_round config env (fresh k) g y w"
  from Cons.IH [where k = "Suc k" and w = ?w2] obtain ws where
    len: "length ws = Suc (length gs)" and w0: "ws ! 0 = ?w2"
    and step: "\<And>i. i < length gs \<Longrightarrow>
            fst (run_groups config env fresh y (Suc k) gs ?w2) ! i =
              (gs ! i, fst (generateAndStoreSummary config env (fresh (Suc k + i)) (gs ! i) y (ws ! i))) \<and>
            ws ! Suc i = after_round config env (fresh (Suc k + i)) (gs ! i) y (ws ! i)"
    and fin: "snd (run_groups config env fresh y (Suc k) gs ?w2) = ws ! length gs"
    by blast
  show ?case
  proof (intro exI [of _ "w # ws"] conjI allI impI)
    show "length (w # ws) = Suc (length (g # gs))" using len by simp
    show "(w # ws) ! 0 = w" by simp
    show "snd (run_groups config env fresh y k (g # gs) w) = (w # ws) ! length (g # gs)"
      unfolding run_groups_Cons using fin by simp
  next
    fix i assume i: "i < length (g # gs)"
    show "fst (run_groups config env fresh y k (g # gs) w) ! i =
              ((g # gs) ! i,
               fst (generateAndStoreSummary config env (fresh (k + i)) ((g # gs) ! i) y ((w # ws) ! i)))"
      unfolding run_groups_Cons using i step [of "i - 1"] by (cases i) simp_all
    show "(w # ws) ! Suc i = after_round config env (fresh (k + i)) ((g # gs) ! i) y ((w # ws) ! i)"
      using i step [of "i - 1"] w0 by (cases i) simp_all
  qed
qed

lemma run_groups_chain0:
  "\<exists>ws. length ws = Suc (length gs) \<and> ws ! 0 = w \<and>
        (\<forall>i < length gs.
            fst (run_groups config env fresh y 0 gs w) ! i =
              (gs ! i, fst (generateAndStoreSummary config env (fresh i) (gs ! i) y (ws ! i))) \<and>
            ws ! Suc i = after_round config env (fresh i) (gs ! i) y (ws ! i)) \<and>
        snd (run_groups config env fresh y 0 gs w) = ws ! length gs"
  using run_groups_chain [of gs w config env fresh y 0] by simp


lemma run_groups_calls:
  "map fst (fst (run_groups config env fresh y k gs w)) = gs"
proof (induction gs arbitrary: k w)
  case Nil
  then show ?case by simp
next
  case (Cons g gs)
  obtain r w1 where p: "generateAndStoreSummary config env (fresh k) g y w = (r, w1)"
    by (cases "generateAndStoreSummary config env (fresh k) g y w")
  define w2 where "w2 = (case r of Inl err \<Rightarrow> w1\<lparr>logs := logs w1 @ [WarnSummaryFailed g err]\<rparr>
                                | Inr _ \<Rightarrow> w1)"
  obtain rs w3 where rest: "run_groups config env fresh y (Suc k) gs w2 = (rs, w3)"
    by (cases "run_groups config env fresh y (Suc k) gs w2")
  have "map fst rs = gs"
    using Cons.IH [of "Suc k" w2] rest by simp
  then show ?case
    using p rest by (simp add: Let_def w2_def)
qed

lemma run_groups_logs_mono:
  "set (logs w) \<subseteq> set (logs (snd (run_groups config env fresh y k gs w)))"
proof (induction gs arbitrary: k w)
  case Nil
  then show ?case by simp
next
  case (Cons g gs)
  obtain r w1 where p: "generateAndStoreSummary config env (fresh k) g y w = (r, w1)"
    by (cases "generateAndStoreSummary config env (fresh k) g y w")
  define w2 where "w2 = (case r of Inl err \<Rightarrow> w1\<lparr>logs := logs w1 @ [WarnSummaryFailed g err]\<rparr>
                                | Inr _ \<Rightarrow> w1)"
  obtain rs w3 where rest: "run_groups config env fresh y (Suc k) gs w2 = (rs, w3)"
    by (cases "run_groups config env fresh y (Suc k) gs w2")
  have whole: "run_groups config env fresh y k (g # gs) w = ((g, r) # rs, w3)"
    using p rest by (simp add: Let_def w2_def)
  have "set (logs w) \<subseteq> set (logs w1)"
    using logs_pipeline_mono [of w config env "fresh k" g y] p by simp
  moreover have "set (logs w1) \<subseteq> set (logs w2)"
    by (auto simp: w2_def split: sum.splits)
  moreover have "set (logs w2) \<subseteq> set (logs w3)"
    using Cons.IH [of w2 "Suc k"] rest by simp
  ultimately show ?case
    unfolding whole by auto
qed

lemma run_groups_failures_logged:
  "(g, Inl e) \<in> set (fst (run_groups config env fresh y k gs w)) \<Longrightarrow>
     WarnSummaryFailed g e \<in> set (logs (snd (run_groups config env fresh y k gs w)))"
proof (induction gs arbitrary: k w)
  case Nil
  then show ?case by simp
next
  case (Cons g' gs)
  obtain r w1 where p: "generateAndStoreSummary config env (fresh k) g' y w = (r, w1)"
    by (cases "generateAndStoreSummary config env (fresh k) g' y w")
  define w2 where "w2 = (case r of Inl err \<Rightarrow> w1\<lparr>logs := logs w1 @ [WarnSummaryFailed g' err]\<rparr>
                                | Inr _ \<Rightarrow> w1)"
  obtain rs w3 where rest: "run_groups config env fresh y (Suc k) gs w2 = (rs, w3)"
    by (cases "run_groups config env fresh y (Suc k) gs w2")
  have whole: "run_groups config env fresh y k (g' # gs) w = ((g', r) # rs, w3)"
    using p rest by (simp add: Let_def w2_def)
  from Cons.prems whole have "(g, Inl e) = (g', r) \<or> (g, Inl e) \<in> set rs" by simp
  then show ?case
  proof
    assume "(g, Inl e) = (g', r)"
    then have "WarnSummaryFailed g e \<in> set (logs w2)" by (auto simp: w2_def)
    then have "WarnSummaryFailed g e \<in> set (logs w3)"
      using run_groups_logs_mono [of w2 config env fresh y "Suc k" gs] rest by auto
    then show ?thesis unfolding whole by simp
  next
    assume "(g, Inl e) \<in> set rs"
    then have "WarnSummaryFailed g e \<in> set (logs w3)"
      using Cons.IH [of "Suc k" w2] rest by simp
    then show ?thesis unfolding whole by simp
  qed
qed

lemma after_round_frame:
  "requests (after_round config env fr g y w) = requests (snd (generateAndStoreSummary config env fr g y w))"
  "db (after_round config env fr g y w) = db (snd (generateAndStoreSummary config env fr g y w))"
proof -
  obtain r w1 where p: "generateAndStoreSummary config env fr g y w = (r, w1)"
    by (cases "generateAndStoreSummary config env fr g y w")
  show "requests (after_round config env fr g y w) = requests (snd (generateAndStoreSummary config env fr g y w))"
    by (cases r) (simp_all add: after_round_def p)
  show "db (after_round config env fr g y w) = db (snd (generateAndStoreSummary config env fr g y w))"
    by (cases r) (simp_all add: after_round_def p)
qed

lemma range_messages_cong:
  "messages d' = messages d \<Longrightarrow>
     getMessagesByGroupAndDateRange d' g s e = getMessagesByGroupAndDateRange d g s e"
  by (simp add: getMessagesByGroupAndDateRange_def)

lemma transcript_of_cong:
  "messages d' = messages d \<Longrightarrow> transcript_of d' g s = transcript_of d g s"
  by (simp add: transcript_of_def range_messages_cong [of d' d])

lemma range_messages_render:
  assumes "\<forall>m \<in> set (messages d). time_clip (m_timestamp m) \<noteq> None"
  shows "formatTranscript (getMessagesByGroupAndDateRange d g s e) = Inr (transcript_of d g s)
           \<or> e \<noteq> map_option (\<lambda>s. s + 86400000) s"
proof -
  have "\<forall>m \<in> set (getMessagesByGroupAndDateRange d g s e). time_clip (m_timestamp m) \<noteq> None"
    using assms by (auto simp: getMessagesByGroupAndDateRange_def)
  then obtain ls where "map_lines (getMessagesByGroupAndDateRange d g s e) = Inr ls"
    using map_lines_total by blast
  then show ?thesis
    by (auto simp: formatTranscript_def transcript_of_def)
qed

lemma run_groups_requests:
  assumes mid: "midnightUtcForDate y (timezone config) = Inr dayStart"
    and "distinct gs"
    and "\<forall>g \<in> set gs. getSummary (db w) g y = None"
    and "\<forall>g \<in> set gs. getMessagesByGroupAndDateRange (db w) g dayStart
             (map_option (\<lambda>s. s + 86400000) dayStart) \<noteq> []"
    and "\<forall>m \<in> set (messages (db w)). time_clip (m_timestamp m) \<noteq> None"
  shows "requests (snd (run_groups config env fresh y k gs w)) =
           requests w @ map (\<lambda>g. (provider_of config, cap_transcript (transcript_of (db w) g dayStart))) gs"
  using assms(2-5)
proof (induction gs arbitrary: k w)
  case Nil
  then show ?case by simp
next
  case (Cons g gs)
  let ?e = "map_option (\<lambda>s. s + 86400000) dayStart"
  let ?w2 = "after_round config env (fresh k) g y w"
  obtain r w1 where p: "generateAndStoreSummary config env (fresh k) g y w = (r, w1)"
    by (cases "generateAndStoreSummary config env (fresh k) g y w")
  have db2: "db ?w2 = db w1"
    using p by (simp add: after_round_frame)
  have msgs: "messages (db ?w2) = messages (db w)"
    unfolding db2 using p by (rule pipeline_frame(1))
  have render: "formatTranscript (getMessagesByGroupAndDateRange (db w) g dayStart ?e)
                  = Inr (transcript_of (db w) g dayStart)"
    using range_messages_render [OF Cons.prems(4), of g dayStart ?e] by simp
  have sent: "requests ?w2 = requests w @ [(provider_of config,
                 cap_transcript (transcript_of (db w) g dayStart))]"
    using pipeline_sends [OF _ mid _ render, of env "fresh k"] Cons.prems(2,3)
    by (simp add: after_round_frame)
  have none: "\<forall>g' \<in> set gs. getSummary (db ?w2) g' y = None"
  proof
    fix g' assume g': "g' \<in> set gs"
    with Cons.prems(1) have "g' \<noteq> g" by auto
    moreover from g' Cons.prems(2) have "getSummary (db w) g' y = None" by simp
    ultimately show "getSummary (db ?w2) g' y = None"
      unfolding db2 using pipeline_frame(2) [OF p] by blast
  qed
  have IH: "requests (snd (run_groups config env fresh y (Suc k) gs ?w2)) =
          requests ?w2 @ map (\<lambda>g. (provider_of config,
             cap_transcript (transcript_of (db ?w2) g dayStart))) gs"
  proof (rule Cons.IH)
    show "distinct gs" using Cons.prems(1) by simp
    show "\<forall>g \<in> set gs. getSummary (db ?w2) g y = None" by (rule none)
    show "\<forall>g \<in> set gs. getMessagesByGroupAndDateRange (db ?w2) g dayStart ?e \<noteq> []"
      using Cons.prems(3) by (simp add: range_messages_cong [OF msgs])
    show "\<forall>m \<in> set (messages (db ?w2)). time_clip (m_timestamp m) \<noteq> None"
      using Cons.prems(4) by (simp only: msgs)
  qed
  have same: "transcript_of (db ?w2) g' dayStart = transcript_of (db w) g' dayStart" for g'
    by (rule transcript_of_cong [OF msgs])
  have "snd (run_groups config env fresh y k (g # gs) w) =
          snd (run_groups config env fresh y (Suc k) gs ?w2)"
    by (simp only: run_groups_Cons snd_conv)
  then show ?case
    by (simp only: IH sent same list.map append_assoc append.simps)
qed

lemma run_groups_keeps:
  assumes "getSummary (db w) g y = Some s" and "g \<notin> set gs"
    and "\<forall>j < length gs. s_id s \<noteq> fst (fresh (k + j))"
  shows "getSummary (db (snd (run_groups config env fresh y k gs w))) g y = Some s"
  using assms
proof (induction gs arbitrary: k w)
  case Nil
  then show ?case by simp
next
  case (Cons g' gs)
  let ?w2 = "after_round config env (fresh k) g' y w"
  have "s_id s \<noteq> fst (fresh k)"
    using Cons.prems(3) by force
  then have "getSummary (db ?w2) g y = Some s"
    using Cons.prems(1,2) by (simp add: after_round_frame pipeline_keeps)
  moreover have "\<forall>j < length gs. s_id s \<noteq> fst (fresh (Suc k + j))"
    using Cons.prems(3) by force
  ultimately have "getSummary (db (snd (run_groups config env fresh y (Suc k) gs ?w2))) g y = Some s"
    using Cons.prems(2) by (intro Cons.IH) simp_all
  then show ?case
    by (simp only: run_groups_Cons snd_conv)
qed

text \<open>
  With ids that are new, every group of the run whose call returned a text has a stored
  summary with that text when the run is over: a failure of one call takes nothing from
  the others.
\<close>

lemma run_groups_stored:
  assumes mid: "midnightUtcForDate y (timezone config) = Inr dayStart"
    and "distinct gs"
    and "\<forall>g \<in> set gs. getMessagesByGroupAndDateRange (db w) g dayStart
             (map_option (\<lambda>s. s + 86400000) dayStart) \<noteq> []"
    and "\<forall>i < length gs. \<forall>j < length gs. i \<noteq> j \<longrightarrow> fst (fresh (k + i)) \<noteq> fst (fresh (k + j))"
    and "\<forall>s \<in> set (daily_summaries (db w)). \<forall>j < length gs. s_id s \<noteq> fst (fresh (k + j))"
    and "i < length gs"
    and "snd (fst (run_groups config env fresh y k gs w) ! i) = Inr t"
  shows "\<exists>s. getSummary (db (snd (run_groups config env fresh y k gs w))) (gs ! i) y = Some s \<and>
             s_summary_text s = t"
  using assms(2-)
proof (induction gs arbitrary: k w i)
  case Nil
  then show ?case by simp
next
  case (Cons g gs)
  let ?e = "map_option (\<lambda>s. s + 86400000) dayStart"
  let ?p = "generateAndStoreSummary config env (fresh k) g y w"
  let ?w2 = "after_round config env (fresh k) g y w"
  have db2: "db ?w2 = db (snd ?p)"
    by (simp add: after_round_frame)
  have msgs: "messages (db ?w2) = messages (db w)"
    unfolding db2 by (rule pipeline_frame(1) [of config env "fresh k" g y w "fst ?p"]) simp
  have ids: "\<forall>s \<in> set (daily_summaries (db ?w2)). \<forall>j < length gs. s_id s \<noteq> fst (fresh (Suc k + j))"
  proof (intro ballI allI impI)
    fix s j assume s: "s \<in> set (daily_summaries (db ?w2))" and j: "j < length gs"
    from s have "s \<in> set (daily_summaries (db w)) \<or> s_id s = fst (fresh k)"
      unfolding db2 by (rule pipeline_ids)
    then show "s_id s \<noteq> fst (fresh (Suc k + j))"
    proof
      assume "s \<in> set (daily_summaries (db w))"
      with Cons.prems(4) j show ?thesis by force
    next
      assume "s_id s = fst (fresh k)"
      moreover have "fst (fresh (k + 0)) \<noteq> fst (fresh (k + Suc j))"
        using Cons.prems(3) j by (metis Suc_less_eq length_Cons nat.distinct(1) zero_less_Suc)
      ultimately show ?thesis by simp
    qed
  qed
  have first: "fst (run_groups config env fresh y k (g # gs) w) ! 0 = (g, fst ?p)"
    by (simp only: run_groups_Cons fst_conv nth_Cons_0)
  have later: "fst (run_groups config env fresh y k (g # gs) w) ! Suc n =
                 fst (run_groups config env fresh y (Suc k) gs ?w2) ! n" for n
    by (simp only: run_groups_Cons fst_conv nth_Cons_Suc)
  have final: "snd (run_groups config env fresh y k (g # gs) w) =
                 snd (run_groups config env fresh y (Suc k) gs ?w2)"
    by (simp only: run_groups_Cons snd_conv)
  show ?case
  proof (cases i)
    case 0
    with Cons.prems(6) have r: "fst ?p = Inr t"
      by (simp only: first snd_conv)
    from pipeline_stores [OF mid _ r] Cons.prems(2)
    obtain s where s: "getSummary (db ?w2) g y = Some s" "s_summary_text s = t"
      unfolding db2 by auto
    have "s \<in> set (daily_summaries (db ?w2))"
      using s(1) by (simp add: getSummary_def find_Some_set)
    with ids have "\<forall>j < length gs. s_id s \<noteq> fst (fresh (Suc k + j))"
      by blast
    moreover have "g \<notin> set gs"
      using Cons.prems(1) by simp
    ultimately have "getSummary (db (snd (run_groups config env fresh y (Suc k) gs ?w2))) g y = Some s"
      using s(1) by (intro run_groups_keeps) simp_all
    with s(2) 0 show ?thesis
      by (simp only: final nth_Cons_0) simp
  next
    case (Suc i')
    have "\<exists>s. getSummary (db (snd (run_groups config env fresh y (Suc k) gs ?w2))) (gs ! i') y = Some s \<and>
             s_summary_text s = t"
    proof (rule Cons.IH)
      show "distinct gs" using Cons.prems(1) by simp
      show "\<forall>g \<in> set gs. getMessagesByGroupAndDateRange (db ?w2) g dayStart ?e \<noteq> []"
        using Cons.prems(2) by (simp add: range_messages_cong [OF msgs])
      show "\<forall>i < length gs. \<forall>j < length gs. i \<noteq> j \<longrightarrow>
              fst (fresh (Suc k + i)) \<noteq> fst (fresh (Suc k + j))"
      proof (intro allI impI)
        fix a b assume "a < length gs" "b < length gs" "a \<noteq> b"
        with Cons.prems(3) have "fst (fresh (k + Suc a)) \<noteq> fst (fresh (k + Suc b))"
          by (metis Suc_less_eq length_Cons nat.inject)
        then show "fst (fresh (Suc k + a)) \<noteq> fst (fresh (Suc k + b))" by simp
      qed
      show "\<forall>s \<in> set (daily_summaries (db ?w2)). \<forall>j < length gs. s_id s \<noteq> fst (fresh (Suc k + j))"
        by (rule ids)
      show "i' < length gs" using Cons.prems(5) Suc by simp
      show "snd (fst (run_groups config env fresh y (Suc k) gs ?w2) ! i') = Inr t"
        using Cons.prems(6) Suc by (simp only: later)
    qed
    with Suc show ?thesis
      by (simp only: final nth_Cons_Suc)
  qed
qed

lemma groups_have_messages:
  "g \<in> set (getGroupsWithMessagesOnDate d s e) \<Longrightarrow> getMessagesByGroupAndDateRange d g s e \<noteq> []"
proof -
  assume "g \<in> set (getGroupsWithMessagesOnDate d s e)"
  then obtain m where "m \<in> set (messages d)" "in_range s e (m_timestamp m)" "m_group_jid m = g"
    by (auto simp: getGroupsWithMessagesOnDate_def set_first_occurrences)
  then have "m \<in> set (getMessagesByGroupAndDateRange d g s e)"
    by (simp add: getMessagesByGroupAndDateRange_def)
  then show ?thesis by auto
qed

lemma groups_set:
  "set (getGroupsWithMessagesOnDate d s e) =
     {g. \<exists>m \<in> set (messages d). m_group_jid m = g \<and> in_range s e (m_timestamp m)}"
  by (auto simp: getGroupsWithMessagesOnDate_def set_first_occurrences)

text \<open>
  The two early returns of \<open>tick\<close>: off the trigger minute, and on a date already handled.
\<close>

lemma tick_not_trigger_time:
  "currentTimeInTimezone (timezone config) now \<noteq> scheduledTime config \<Longrightarrow>
     tick config env fresh now (lastRunDate, w) = (NotTriggerTime, lastRunDate, w)"
  by (simp add: tick_def)

lemma tick_handled_date_skips:
  "currentTimeInTimezone (timezone config) now = scheduledTime config \<Longrightarrow>
   getYesterdayDate (timezone config) now = Inr y \<Longrightarrow>
     tick config env fresh now (Some y, w) = (AlreadyRan, Some y, w)"
  by (simp add: tick_def)

text \<open>
  C9: a tick at the trigger time, for a date not yet handled whose range is resolved, runs
  to its end, whatever the calls of the pipeline do. The groups \<open>gs\<close> of the run are those
  with a message in the range, each once. The run passes through the states \<open>ws\<close>: round
  \<open>i\<close> calls the pipeline for the \<open>i\<close>-th group in the state the round before left,
  records the outcome in \<open>rs\<close> and, where the call threw, logs a warning; the next round
  starts whether it threw or not. After the last round the run is logged as done, with
  the number of groups, and the date is recorded in \<open>lastRunDate\<close>. Where no summary was
  stored for these groups and every timestamp can be rendered, one request per group is
  sent, with its capped transcript, in the order of the groups. Where the ids drawn are
  new, every group whose call returned a text has a stored summary with that text at
  the end, also after a call for another group has failed.
\<close>

theorem C9_failures_isolated:
  assumes "currentTimeInTimezone (timezone config) now = scheduledTime config"
    and "getYesterdayDate (timezone config) now = Inr y"
    and "lastRunDate \<noteq> Some y"
    and "midnightUtcForDate y (timezone config) = Inr dayStart"
  shows "\<exists>gs rs ws w'.
           gs = getGroupsWithMessagesOnDate (db w) dayStart (map_option (\<lambda>s. s + 86400000) dayStart) \<and>
           tick config env fresh now (lastRunDate, w) = (Done rs, Some y, w') \<and>
           map fst rs = gs \<and>
           set gs = {g. \<exists>m \<in> set (messages (db w)). m_group_jid m = g \<and>
                        in_range dayStart (map_option (\<lambda>s. s + 86400000) dayStart) (m_timestamp m)} \<and>
           distinct gs \<and>
           length ws = Suc (length gs) \<and>
           ws ! 0 = w\<lparr>logs := logs w @ [InfoSchedulerTriggered y]\<rparr> \<and>
           (\<forall>i < length gs.
               rs ! i = (gs ! i, fst (generateAndStoreSummary config env (fresh i) (gs ! i) y (ws ! i))) \<and>
               ws ! Suc i = after_round config env (fresh i) (gs ! i) y (ws ! i)) \<and>
           w' = (ws ! length gs)\<lparr>logs := logs (ws ! length gs) @ [InfoSchedulerDone (length gs) y]\<rparr> \<and>
           (\<forall>g e. (g, Inl e) \<in> set rs \<longrightarrow> WarnSummaryFailed g e \<in> set (logs w')) \<and>
           InfoSchedulerDone (length rs) y \<in> set (logs w') \<and>
           ((\<forall>g \<in> set gs. getSummary (db w) g y = None) \<and>
            (\<forall>m \<in> set (messages (db w)). time_clip (m_timestamp m) \<noteq> None) \<longrightarrow>
              requests w' = requests w @
                map (\<lambda>g. (provider_of config, cap_transcript (transcript_of (db w) g dayStart))) gs) \<and>
           ((\<forall>i < length gs. \<forall>j < length gs. i \<noteq> j \<longrightarrow> fst (fresh i) \<noteq> fst (fresh j)) \<and>
            (\<forall>s \<in> set (daily_summaries (db w)). \<forall>j < length gs. s_id s \<noteq> fst (fresh j)) \<longrightarrow>
              (\<forall>i < length gs. \<forall>t. snd (rs ! i) = Inr t \<longrightarrow>
                  (\<exists>s. getSummary (db w') (gs ! i) y = Some s \<and> s_summary_text s = t)))"
proof -
  let ?e = "map_option (\<lambda>s. s + 86400000) dayStart"
  let ?w1 = "w\<lparr>logs := logs w @ [InfoSchedulerTriggered y]\<rparr>"
  let ?gs = "getGroupsWithMessagesOnDate (db w) dayStart ?e"
  let ?run = "run_groups config env fresh y 0 ?gs ?w1"
  let ?rs = "fst ?run"
  let ?w2 = "snd ?run"
  let ?w' = "?w2\<lparr>logs := logs ?w2 @ [InfoSchedulerDone (length ?gs) y]\<rparr>"
  have t: "tick config env fresh now (lastRunDate, w) = (Done ?rs, Some y, ?w')"
    using assms by (simp add: tick_def Let_def split: prod.splits)
  have calls: "map fst ?rs = ?gs"
    by (rule run_groups_calls)
  then have len: "length ?rs = length ?gs"
    by (metis length_map)
  have dist: "distinct ?gs"
    by (simp add: getGroupsWithMessagesOnDate_def distinct_first_occurrences)
  have "\<exists>ws. length ws = Suc (length ?gs) \<and> ws ! 0 = ?w1 \<and>
      (\<forall>i < length ?gs.
          ?rs ! i = (?gs ! i, fst (generateAndStoreSummary config env (fresh i) (?gs ! i) y (ws ! i))) \<and>
          ws ! Suc i = after_round config env (fresh i) (?gs ! i) y (ws ! i)) \<and>
      ?w2 = ws ! length ?gs"
    by (rule run_groups_chain0)
  then obtain ws where ws: "length ws = Suc (length ?gs)" "ws ! 0 = ?w1"
      "\<forall>i < length ?gs.
          ?rs ! i = (?gs ! i, fst (generateAndStoreSummary config env (fresh i) (?gs ! i) y (ws ! i))) \<and>
          ws ! Suc i = after_round config env (fresh i) (?gs ! i) y (ws ! i)"
      "?w2 = ws ! length ?gs"
    by (elim exE conjE)
  have warn: "WarnSummaryFailed g e \<in> set (logs ?w')" if "(g, Inl e) \<in> set ?rs" for g e
    using run_groups_failures_logged [OF that] by simp
  have nonempty: "\<forall>g \<in> set ?gs. getMessagesByGroupAndDateRange (db ?w1) g dayStart ?e \<noteq> []"
    by (simp add: groups_have_messages)
  have req: "requests ?w' = requests w @
                map (\<lambda>g. (provider_of config, cap_transcript (transcript_of (db w) g dayStart))) ?gs"
    if "\<forall>g \<in> set ?gs. getSummary (db w) g y = None"
      and "\<forall>m \<in> set (messages (db w)). time_clip (m_timestamp m) \<noteq> None"
    using run_groups_requests [OF assms(4) dist _ nonempty, of env fresh 0] that by simp
  have stored: "\<exists>s. getSummary (db ?w') (?gs ! i) y = Some s \<and> s_summary_text s = t"
    if "\<forall>i < length ?gs. \<forall>j < length ?gs. i \<noteq> j \<longrightarrow> fst (fresh i) \<noteq> fst (fresh j)"
      and "\<forall>s \<in> set (daily_summaries (db w)). \<forall>j < length ?gs. s_id s \<noteq> fst (fresh j)"
      and "i < length ?gs" and "snd (?rs ! i) = Inr t" for i t
    using run_groups_stored [OF assms(4) dist nonempty, of fresh 0 i env t] that by simp
  have whole: "?gs = ?gs \<and>
           tick config env fresh now (lastRunDate, w) = (Done ?rs, Some y, ?w') \<and>
           map fst ?rs = ?gs \<and>
           set ?gs = {g. \<exists>m \<in> set (messages (db w)). m_group_jid m = g \<and>
                        in_range dayStart ?e (m_timestamp m)} \<and>
           distinct ?gs \<and>
           length ws = Suc (length ?gs) \<and>
           ws ! 0 = ?w1 \<and>
           (\<forall>i < length ?gs.
               ?rs ! i = (?gs ! i, fst (generateAndStoreSummary config env (fresh i) (?gs ! i) y (ws ! i))) \<and>
               ws ! Suc i = after_round config env (fresh i) (?gs ! i) y (ws ! i)) \<and>
           ?w' = (ws ! length ?gs)\<lparr>logs := logs (ws ! length ?gs) @ [InfoSchedulerDone (length ?gs) y]\<rparr> \<and>
           (\<forall>g e. (g, Inl e) \<in> set ?rs \<longrightarrow> WarnSummaryFailed g e \<in> set (logs ?w')) \<and>
           InfoSchedulerDone (length ?rs) y \<in> set (logs ?w') \<and>
           ((\<forall>g \<in> set ?gs. getSummary (db w) g y = None) \<and>
            (\<forall>m \<in> set (messages (db w)). time_clip (m_timestamp m) \<noteq> None) \<longrightarrow>
              requests ?w' = requests w @
                map (\<lambda>g. (provider_of config, cap_transcript (transcript_of (db w) g dayStart))) ?gs) \<and>
           ((\<forall>i < length ?gs. \<forall>j < length ?gs. i \<noteq> j \<longrightarrow> fst (fresh i) \<noteq> fst (fresh j)) \<and>
            (\<forall>s \<in> set (daily_summaries (db w)). \<forall>j < length ?gs. s_id s \<noteq> fst (fresh j)) \<longrightarrow>
              (\<forall>i < length ?gs. \<forall>t. snd (?rs ! i) = Inr t \<longrightarrow>
                  (\<exists>s. getSummary (db ?w') (?gs ! i) y = Some s \<and> s_summary_text s = t)))"
    apply (intro conjI)
                apply (rule refl)
               apply (rule t)
              apply (rule calls)
             apply (rule groups_set)
            apply (rule dist)
           apply (rule ws(1))
          apply (rule ws(2))
         apply (rule ws(3))
        apply (simp only: ws(4))
       apply (intro allI impI, erule warn)
      apply (simp only: len, simp)
     apply (intro impI, elim conjE, erule (1) req)
    apply (intro impI allI, elim conjE, rule stored; assumption)
    done
  show ?thesis
    by (rule exI [of _ ?gs], rule exI [of _ ?rs], rule exI [of _ ws], rule exI [of _ ?w'], rule whole)
qed

lemma tick_time_utc_plus2:
  "currentTimeInTimezone utc_plus2 1718402400000 = ''00:00'' \<and>
   getYesterdayDate utc_plus2 1718402400000 = Inr ''2024-06-14''"
  by code_simp

lemma groups_world3:
  "getGroupsWithMessagesOnDate (db world3) (Some 1718316000000) (Some 1718402400000)
     = [''g1@g.us'', ''g2@g.us'', ''g3@g.us'']"
  by (simp add: getGroupsWithMessagesOnDate_def first_occurrences_def world3_def msg_of_def
      in_range_def)

lemma transcript_world3:
  "g \<in> {''g1@g.us'', ''g2@g.us'', ''g3@g.us''} \<Longrightarrow>
     cap_transcript (transcript_of (db world3) g (Some 1718316000000)) = ''[12:00] alice: hello''"
  by (auto simp: transcript_of_def getMessagesByGroupAndDateRange_def world3_def msg_of_def
      in_range_def formatTranscript_def format_line_def iso_noon_14 slice_def cap_transcript_def)

lemma requests_world3: "requests world3 = []"
  by (simp add: world3_def)

lemma config0_fields: "timezone config0 = utc_plus2" "scheduledTime config0 = ''00:00''"
  by (simp_all add: config0_def)

text \<open>
  The run on the three groups in full: the backend fails on the second request. The pipeline is
  called for all three groups, the failure of the second is logged, and summaries are
  stored for the first and the third.
\<close>

lemma insertSummary_has_group:
  "has_group d g \<Longrightarrow>
     insertSummary d uuid now g y t n =
       Inr (d\<lparr>daily_summaries :=
               filter (\<lambda>s. s_id s \<noteq> uuid \<and> \<not> (s_group_jid s = g \<and> s_date s = y))
                 (daily_summaries d) @
               [\<lparr>s_id = uuid, s_group_jid = g, s_date = y, s_summary_text = t,
                 s_message_count = n, s_created_at = now\<rparr>]\<rparr>)"
  by (simp add: insertSummary_def)

lemma pipeline_world3:
  "messages (db w) = [msg_of ''m1'' ''g1@g.us'', msg_of ''m2'' ''g2@g.us'', msg_of ''m3'' ''g3@g.us''] \<Longrightarrow>
   g \<in> {''g1@g.us'', ''g2@g.us'', ''g3@g.us''} \<Longrightarrow>
   has_group (db w) g \<Longrightarrow>
   getSummary (db w) g ''2024-06-14'' = None \<Longrightarrow>
   generateAndStoreSummary config0 second_fails fr g ''2024-06-14'' w =
     (case openai second_fails (length (requests w)) ''[12:00] alice: hello'' of
        Inl e \<Rightarrow> (Inl e, w\<lparr>logs := logs w @ [InfoGenerating g ''2024-06-14'' 1],
                          requests := requests w @ [(''openai'', ''[12:00] alice: hello'')]\<rparr>)
      | Inr t \<Rightarrow> (Inr t, w\<lparr>logs := logs w @ [InfoGenerating g ''2024-06-14'' 1],
                          requests := requests w @ [(''openai'', ''[12:00] alice: hello'')],
                          db := (db w)\<lparr>daily_summaries :=
                                  filter (\<lambda>s. s_id s \<noteq> fst fr \<and>
                                               \<not> (s_group_jid s = g \<and> s_date s = ''2024-06-14''))
                                    (daily_summaries (db w)) @
                                  [\<lparr>s_id = fst fr, s_group_jid = g, s_date = ''2024-06-14'',
                                    s_summary_text = t, s_message_count = 1,
                                    s_created_at = snd fr\<rparr>]\<rparr>\<rparr>))"
  by (auto simp: generateAndStoreSummary_def config0_def midnight_utc_plus2_before
      getMessagesByGroupAndDateRange_def in_range_def msg_of_def Let_def
      generateSummary_def formatTranscript_def format_line_def iso_noon_14 slice_def
      cap_transcript_def generateWithOpenAI_def insertSummary_has_group split: sum.splits)

lemma tick_three_groups:
  "fst (tick config0 second_fails fresh0 1718402400000 (None, world3)) =
     Done [(''g1@g.us'', Inr ''summary''), (''g2@g.us'', Inl (BackendError ''500'')),
           (''g3@g.us'', Inr ''summary'')]
   \<and> WarnSummaryFailed ''g2@g.us'' (BackendError ''500'')
       \<in> set (logs (snd (snd (tick config0 second_fails fresh0 1718402400000 (None, world3)))))
   \<and> map s_group_jid (daily_summaries (db (snd (snd
        (tick config0 second_fails fresh0 1718402400000 (None, world3))))))
     = [''g1@g.us'', ''g3@g.us'']"
proof -
  let ?y = "''2024-06-14''"
  let ?t = "''[12:00] alice: hello''"
  let ?row = "\<lambda>k g. \<lparr>s_id = fst (fresh0 k), s_group_jid = g, s_date = ?y,
                       s_summary_text = ''summary'', s_message_count = 1,
                       s_created_at = snd (fresh0 k)\<rparr>"
  let ?wa = "world3\<lparr>logs := logs world3 @ [InfoSchedulerTriggered ?y]\<rparr>"
  let ?wb = "?wa\<lparr>logs := logs ?wa @ [InfoGenerating ''g1@g.us'' ?y 1],
                  requests := requests ?wa @ [(''openai'', ?t)],
                  db := (db ?wa)\<lparr>daily_summaries := [?row 0 ''g1@g.us'']\<rparr>\<rparr>"
  let ?wc = "?wb\<lparr>logs := logs ?wb @ [InfoGenerating ''g2@g.us'' ?y 1],
                  requests := requests ?wb @ [(''openai'', ?t)]\<rparr>"
  let ?wc' = "?wc\<lparr>logs := logs ?wc @ [WarnSummaryFailed ''g2@g.us'' (BackendError ''500'')]\<rparr>"
  let ?wd = "?wc'\<lparr>logs := logs ?wc' @ [InfoGenerating ''g3@g.us'' ?y 1],
                  requests := requests ?wc' @ [(''openai'', ?t)],
                  db := (db ?wc')\<lparr>daily_summaries :=
                          [?row 0 ''g1@g.us'', ?row (Suc (Suc 0)) ''g3@g.us'']\<rparr>\<rparr>"
  have p1: "generateAndStoreSummary config0 second_fails (fresh0 0) ''g1@g.us'' ?y ?wa
              = (Inr ''summary'', ?wb)"
    by (subst pipeline_world3)
      (simp_all add: world3_def getSummary_def second_fails_def has_group_def group_row_def)
  have p2: "generateAndStoreSummary config0 second_fails (fresh0 (Suc 0)) ''g2@g.us'' ?y ?wb
              = (Inl (BackendError ''500''), ?wc)"
    by (subst pipeline_world3)
      (simp_all add: world3_def getSummary_def second_fails_def has_group_def group_row_def)
  have p3: "generateAndStoreSummary config0 second_fails (fresh0 (Suc (Suc 0))) ''g3@g.us'' ?y ?wc'
              = (Inr ''summary'', ?wd)"
    by (subst pipeline_world3)
      (simp_all add: world3_def getSummary_def second_fails_def has_group_def group_row_def
        fresh0_def)
  have run: "run_groups config0 second_fails fresh0 ?y 0 [''g1@g.us'', ''g2@g.us'', ''g3@g.us''] ?wa
      = ([(''g1@g.us'', Inr ''summary''), (''g2@g.us'', Inl (BackendError ''500'')),
          (''g3@g.us'', Inr ''summary'')], ?wd)"
    by (simp only: run_groups.simps p1 p2 p3 prod.case sum.case Let_def)
  have t: "tick config0 second_fails fresh0 1718402400000 (None, world3) =
     (Done [(''g1@g.us'', Inr ''summary''), (''g2@g.us'', Inl (BackendError ''500'')),
           (''g3@g.us'', Inr ''summary'')], Some ?y,
      ?wd\<lparr>logs := logs ?wd @ [InfoSchedulerDone 3 ?y]\<rparr>)"
    using groups_world3 run
    by (simp add: tick_def config0_fields tick_time_utc_plus2 midnight_utc_plus2_before world3_def)
  show ?thesis
    unfolding t by (simp add: world3_def)
qed

text \<open>
  The same run, by the theorem: the three groups, the three requests, and the summary of
  the third group, stored after the call for the second has failed.
\<close>

theorem C9_failures_isolated_witness:
  "currentTimeInTimezone (timezone config0) 1718402400000 = scheduledTime config0 \<and>
   getYesterdayDate (timezone config0) 1718402400000 = Inr ''2024-06-14'' \<and>
   midnightUtcForDate ''2024-06-14'' (timezone config0) = Inr (Some 1718316000000) \<and>
   (\<exists>rs w'. tick config0 second_fails fresh0 1718402400000 (None, world3)
               = (Done rs, Some ''2024-06-14'', w') \<and>
            rs = [(''g1@g.us'', Inr ''summary''), (''g2@g.us'', Inl (BackendError ''500'')),
                  (''g3@g.us'', Inr ''summary'')] \<and>
            WarnSummaryFailed ''g2@g.us'' (BackendError ''500'') \<in> set (logs w') \<and>
            InfoSchedulerDone 3 ''2024-06-14'' \<in> set (logs w') \<and>
            requests w' = [(''openai'', ''[12:00] alice: hello''), (''openai'', ''[12:00] alice: hello''),
                           (''openai'', ''[12:00] alice: hello'')] \<and>
            (\<exists>s. getSummary (db w') ''g3@g.us'' ''2024-06-14'' = Some s \<and>
                 s_summary_text s = ''summary''))"
proof -
  let ?y = "''2024-06-14''"
  let ?gs = "[''g1@g.us'', ''g2@g.us'', ''g3@g.us'']"
  have a: "currentTimeInTimezone (timezone config0) 1718402400000 = scheduledTime config0"
    by (simp add: config0_def tick_time_utc_plus2)
  have b: "getYesterdayDate (timezone config0) 1718402400000 = Inr ?y"
    by (simp add: config0_def tick_time_utc_plus2)
  have c: "None \<noteq> Some ?y"
    by simp
  have d: "midnightUtcForDate ?y (timezone config0) = Inr (Some 1718316000000)"
    by (simp add: config0_def midnight_utc_plus2_before)
  from C9_failures_isolated [where env = second_fails and fresh = fresh0 and w = world3, OF a b c d]
  obtain gs rs ws w' where
    gs: "gs = getGroupsWithMessagesOnDate (db world3) (Some 1718316000000)
                (map_option (\<lambda>s. s + 86400000) (Some 1718316000000))"
    and t: "tick config0 second_fails fresh0 1718402400000 (None, world3) = (Done rs, Some ?y, w')"
    and "map fst rs = gs"
    and "set gs = {g. \<exists>m \<in> set (messages (db world3)). m_group_jid m = g \<and>
                        in_range (Some 1718316000000)
                          (map_option (\<lambda>s. s + 86400000) (Some 1718316000000)) (m_timestamp m)}"
    and "distinct gs"
    and "length ws = Suc (length gs)"
    and "ws ! 0 = world3\<lparr>logs := logs world3 @ [InfoSchedulerTriggered ?y]\<rparr>"
    and "\<forall>i < length gs.
               rs ! i = (gs ! i, fst (generateAndStoreSummary config0 second_fails (fresh0 i) (gs ! i) ?y (ws ! i))) \<and>
               ws ! Suc i = after_round config0 second_fails (fresh0 i) (gs ! i) ?y (ws ! i)"
    and "w' = (ws ! length gs)\<lparr>logs := logs (ws ! length gs) @ [InfoSchedulerDone (length gs) ?y]\<rparr>"
    and warn: "\<forall>g e. (g, Inl e) \<in> set rs \<longrightarrow> WarnSummaryFailed g e \<in> set (logs w')"
    and l: "InfoSchedulerDone (length rs) ?y \<in> set (logs w')"
    and req: "(\<forall>g \<in> set gs. getSummary (db world3) g ?y = None) \<and>
            (\<forall>m \<in> set (messages (db world3)). time_clip (m_timestamp m) \<noteq> None) \<longrightarrow>
              requests w' = requests world3 @
                map (\<lambda>g. (provider_of config0,
                           cap_transcript (transcript_of (db world3) g (Some 1718316000000)))) gs"
    and st: "(\<forall>i < length gs. \<forall>j < length gs. i \<noteq> j \<longrightarrow> fst (fresh0 i) \<noteq> fst (fresh0 j)) \<and>
            (\<forall>s \<in> set (daily_summaries (db world3)). \<forall>j < length gs. s_id s \<noteq> fst (fresh0 j)) \<longrightarrow>
              (\<forall>i < length gs. \<forall>t. snd (rs ! i) = Inr t \<longrightarrow>
                  (\<exists>s. getSummary (db w') (gs ! i) ?y = Some s \<and> s_summary_text s = t))"
    by (elim exE conjE)
  have gs': "gs = ?gs"
    unfolding gs by (simp add: groups_world3)
  have rs: "rs = [(''g1@g.us'', Inr ''summary''), (''g2@g.us'', Inl (BackendError ''500'')),
                  (''g3@g.us'', Inr ''summary'')]"
    using tick_three_groups t by simp
  have w: "WarnSummaryFailed ''g2@g.us'' (BackendError ''500'') \<in> set (logs w')"
    using warn by (simp add: rs)
  have l': "InfoSchedulerDone 3 ?y \<in> set (logs w')"
    using l by (simp add: rs numeral_3_eq_3)
  have "requests w' = requests world3 @
          map (\<lambda>g. (provider_of config0,
                     cap_transcript (transcript_of (db world3) g (Some 1718316000000)))) gs"
  proof (rule req [rule_format], rule conjI)
    show "\<forall>g \<in> set gs. getSummary (db world3) g ?y = None"
      by (simp add: getSummary_def world3_def)
    show "\<forall>m \<in> set (messages (db world3)). time_clip (m_timestamp m) \<noteq> None"
      by (simp add: world3_def msg_of_def time_clip_def)
  qed
  then have r: "requests w' = [(''openai'', ''[12:00] alice: hello''),
                               (''openai'', ''[12:00] alice: hello''),
                               (''openai'', ''[12:00] alice: hello'')]"
    by (simp add: gs' transcript_world3 provider_of_def config0_def requests_world3)
  have distinct_ids: "\<forall>i < length gs. \<forall>j < length gs. i \<noteq> j \<longrightarrow> fst (fresh0 i) \<noteq> fst (fresh0 j)"
  proof (intro allI impI)
    fix i j :: nat assume "i \<noteq> j"
    then have "length (fst (fresh0 i)) \<noteq> length (fst (fresh0 j))"
      by (simp add: fresh0_def)
    then show "fst (fresh0 i) \<noteq> fst (fresh0 j)" by metis
  qed
  have new_ids: "\<forall>s \<in> set (daily_summaries (db world3)). \<forall>j < length gs. s_id s \<noteq> fst (fresh0 j)"
    by (simp add: world3_def)
  have "2 < length gs" "gs ! 2 = ''g3@g.us''" "snd (rs ! 2) = Inr ''summary''"
    by (simp_all add: gs' rs)
  with st distinct_ids new_ids
  have s3: "\<exists>s. getSummary (db w') ''g3@g.us'' ?y = Some s \<and> s_summary_text s = ''summary''"
    by metis
  show ?thesis
    using a b d t rs w l' r s3 by blast
qed

text \<open>
  In a zone whose offset never changes, two ticks at the trigger time on the same local
  day compute the same date for yesterday, so the second returns at the guard whatever the
  first one did.
\<close>

lemma day_before: "(x - 86400000) div 86400000 = x div 86400000 - (1::int)"
proof -
  have "(x + (- 1) * 86400000) div 86400000 = - 1 + x div (86400000::int)"
    by (rule div_mult_self1) simp
  then show ?thesis by simp
qed

lemma fixed_offset_same_day:
  assumes "\<And>t. tz t = off"
    and "local_ms tz t1 div ms_per_day = local_ms tz t2 div ms_per_day"
  shows "local_date tz (t1 - 86400000) = local_date tz (t2 - 86400000)"
proof -
  have "local_ms tz (t - 86400000) div ms_per_day = local_ms tz t div ms_per_day - 1" for t
    using day_before [of "t + off"]
    by (simp add: local_ms_def assms(1) ms_per_day_def algebra_simps)
  with assms(2) show ?thesis by (simp add: local_date_def)
qed

lemma tick_sets_date:
  assumes "currentTimeInTimezone (timezone config) now = scheduledTime config"
    and "getYesterdayDate (timezone config) now = Inr y"
  shows "fst (snd (tick config env fresh now (lastRunDate, w))) = Some y"
  using assms
  by (simp add: tick_def Let_def split: sum.splits prod.splits)

lemma tick_twice_same_day:
  assumes const: "\<And>t. timezone config t = off"
    and day: "local_ms (timezone config) t1 div ms_per_day
                = local_ms (timezone config) t2 div ms_per_day"
    and t1: "currentTimeInTimezone (timezone config) t1 = scheduledTime config"
    and t2: "currentTimeInTimezone (timezone config) t2 = scheduledTime config"
    and y1: "getYesterdayDate (timezone config) t1 = Inr y1"
    and y2: "getYesterdayDate (timezone config) t2 = Inr y2"
  shows "fst (tick config env fresh' t2 (snd (tick config env fresh t1 (lastRunDate, w))))
           = AlreadyRan"
proof -
  have "y2 = y1"
    using y1 y2 fixed_offset_same_day [OF const day]
    by (auto simp: getYesterdayDate_def format_date_def time_clip_def
        split: option.splits if_splits)
  obtain e l' w' where r: "tick config env fresh t1 (lastRunDate, w) = (e, l', w')"
    by (cases "tick config env fresh t1 (lastRunDate, w)")
  then have "l' = Some y1"
    using tick_sets_date [OF t1 y1, of env fresh lastRunDate w] by simp
  then show ?thesis
    using t2 y2 \<open>y2 = y1\<close> r by (simp add: tick_def)
qed

text \<open>New York, March 2024: the ticks at local midnight of 10, 11 and 12 March.\<close>

lemma ny_tick_10:
  "format_date new_york (Some 1710046800000) = Inr ''2024-03-10'' \<and>
   currentTimeInTimezone new_york 1710046800000 = ''00:00'' \<and>
   getYesterdayDate new_york 1710046800000 = Inr ''2024-03-09''"
  by code_simp

lemma ny_tick_11:
  "format_date new_york (Some 1710129600000) = Inr ''2024-03-11'' \<and>
   currentTimeInTimezone new_york 1710129600000 = ''00:00'' \<and>
   getYesterdayDate new_york 1710129600000 = Inr ''2024-03-09''"
  by code_simp

lemma ny_tick_12:
  "format_date new_york (Some 1710216000000) = Inr ''2024-03-12'' \<and>
   currentTimeInTimezone new_york 1710216000000 = ''00:00'' \<and>
   getYesterdayDate new_york 1710216000000 = Inr ''2024-03-11''"
  by code_simp

lemma ny_midnight_09: "midnightUtcForDate ''2024-03-09'' new_york = Inr (Some 1709960400000)"
  by code_simp

lemma ny_midnight_11: "midnightUtcForDate ''2024-03-11'' new_york = Inr (Some 1710129600000)"
  by code_simp

lemma ny_message_day: "format_date new_york (Some (m_timestamp msg_ny)) = Inr ''2024-03-10''"
  by code_simp

lemma config_ny_fields: "timezone config_ny = new_york" "scheduledTime config_ny = ''00:00''"
  by (simp_all add: config_ny_def)

text \<open>
  C5 fails in the code on the day after daylight saving starts. The zone is New York,
  the trigger time 00:00. The tick at 00:00 on 10 March 2024 (05:00 UTC) runs the job for
  9 March and records that date. The tick at 00:00 on 11 March (04:00 UTC) is at the
  trigger time on the following local day; the instant 24 hours before it is 23:00 on
  9 March, since 10 March has 23 hours, so \<open>getYesterdayDate\<close> gives 9 March again and the
  tick returns at the guard without calling the pipeline. The tick at 00:00 on 12 March
  runs the job for 11 March: the message of 10 March is never summarised by the scheduler.
\<close>

theorem C5_following_day_skipped:
  "format_date (timezone config_ny) (Some 1710046800000) = Inr ''2024-03-10'' \<and>
   currentTimeInTimezone (timezone config_ny) 1710046800000 = scheduledTime config_ny \<and>
   tick config_ny steady fresh0 1710046800000 (None, world_ny)
     = (Done [], Some ''2024-03-09'', world_ny_ran) \<and>
   format_date (timezone config_ny) (Some 1710129600000) = Inr ''2024-03-11'' \<and>
   currentTimeInTimezone (timezone config_ny) 1710129600000 = scheduledTime config_ny \<and>
   tick config_ny steady fresh0 1710129600000 (Some ''2024-03-09'', world_ny_ran)
     = (AlreadyRan, Some ''2024-03-09'', world_ny_ran) \<and>
   format_date (timezone config_ny) (Some (m_timestamp msg_ny)) = Inr ''2024-03-10'' \<and>
   format_date (timezone config_ny) (Some 1710216000000) = Inr ''2024-03-12'' \<and>
   currentTimeInTimezone (timezone config_ny) 1710216000000 = scheduledTime config_ny \<and>
   fst (tick config_ny steady fresh0 1710216000000 (Some ''2024-03-09'', world_ny_ran)) = Done []
   \<and> fst (snd (tick config_ny steady fresh0 1710216000000 (Some ''2024-03-09'', world_ny_ran)))
     = Some ''2024-03-11''"
proof -
  have t10: "tick config_ny steady fresh0 1710046800000 (None, world_ny)
     = (Done [], Some ''2024-03-09'', world_ny_ran)"
    by (simp add: tick_def config_ny_fields ny_tick_10 ny_midnight_09
        getGroupsWithMessagesOnDate_def first_occurrences_def world_ny_def world_ny_ran_def
        msg_ny_def in_range_def)
  have t11: "tick config_ny steady fresh0 1710129600000 (Some ''2024-03-09'', world_ny_ran)
     = (AlreadyRan, Some ''2024-03-09'', world_ny_ran)"
    by (simp add: tick_def config_ny_fields ny_tick_11)
  have t12: "tick config_ny steady fresh0 1710216000000 (Some ''2024-03-09'', world_ny_ran)
     = (Done [], Some ''2024-03-11'',
        world_ny_ran\<lparr>logs := logs world_ny_ran @
          [InfoSchedulerTriggered ''2024-03-11'', InfoSchedulerDone 0 ''2024-03-11'']\<rparr>)"
    by (simp add: tick_def config_ny_fields ny_tick_12 ny_midnight_11
        getGroupsWithMessagesOnDate_def first_occurrences_def world_ny_def world_ny_ran_def
        msg_ny_def in_range_def)
  show ?thesis
    unfolding t10 t11 t12
    by (simp add: config_ny_fields ny_tick_10 ny_tick_11 ny_tick_12 ny_message_day)
qed

subsection \<open>The day boundary\<close>

text \<open>
  The example of the specification: in a zone two hours ahead of UTC the day 2024-06-15
  starts at 2024-06-14T22:00:00Z, and the end that the callers add, 86,400,000 ms later,
  is 2024-06-15T22:00:00Z.
\<close>

lemma day_range_utc_plus2:
  "midnightUtcForDate ''2024-06-15'' utc_plus2 = Inr (Some 1718402400000) \<and>
   toISOString (Some 1718402400000) = Inr ''2024-06-14T22:00:00.000Z'' \<and>
   toISOString (Some (1718402400000 + 86400000)) = Inr ''2024-06-15T22:00:00.000Z''"
  by code_simp

text \<open>
  In a zone whose offset never changes and is a whole number of seconds, a start that the
  loop returns is local midnight of the date asked for: the instant is on that local date
  and its local time of day is 00:00:00. (The other outcome is the value of the fallback.)
\<close>

lemma time_of_day_parts:
  fixes L :: int
  assumes "L mod 1000 = 0"
  shows "(L mod 86400000) div 3600000 * 3600000 + (L mod 3600000) div 60000 * 60000
           + (L mod 60000) div 1000 * 1000 = L mod 86400000"
proof -
  have a: "L mod 86400000 mod 3600000 = L mod 3600000"
    by (rule mod_mod_cancel) simp
  have b: "L mod 3600000 mod 60000 = L mod 60000"
    by (rule mod_mod_cancel) simp
  have c: "L mod 60000 mod 1000 = L mod 1000"
    by (rule mod_mod_cancel) simp
  have "L mod 86400000 = (L mod 86400000) div 3600000 * 3600000 + L mod 86400000 mod 3600000"
    by simp
  also have "L mod 86400000 mod 3600000 = (L mod 3600000) div 60000 * 60000 + L mod 3600000 mod 60000"
    unfolding a by simp
  also have "L mod 3600000 mod 60000 = (L mod 60000) div 1000 * 1000 + L mod 60000 mod 1000"
    unfolding b by simp
  also have "L mod 60000 mod 1000 = 0"
    unfolding c by (rule assms)
  finally show ?thesis by simp
qed

lemma found_branch_midnight:
  assumes const: "\<And>t. tz t = off"
    and whole: "(c + off) mod 1000 = 0"
    and r: "r = c - (local_hour tz c * 3600000 + local_minute tz c * 60000
                      + local_second tz c * 1000)"
  shows "local_date tz r = local_date tz c" and "format_hms tz r = ''00:00:00''"
proof -
  let ?L = "c + off"
  have parts: "local_hour tz c * 3600000 + local_minute tz c * 60000 + local_second tz c * 1000
                 = ?L mod 86400000"
    using time_of_day_parts [OF whole]
    by (simp add: local_hour_def local_minute_def local_second_def local_ms_def const
        ms_per_day_def)
  have lr: "r + off = ?L div 86400000 * 86400000"
    unfolding r parts by (simp add: algebra_simps minus_mod_eq_mult_div)
  show "local_date tz r = local_date tz c"
    by (simp add: local_date_def ms_per_day_def local_ms_def const lr)
  have z: "(?L div 86400000 * 86400000) mod 86400000 = 0"
    "(?L div 86400000 * 86400000) mod 3600000 = 0"
    "(?L div 86400000 * 86400000) mod 60000 = 0"
    by (simp_all add: mod_mult_left_eq mod_eq_0_iff_dvd)
  show "format_hms tz r = ''00:00:00''"
    by (simp add: format_hms_def format_hm_def local_hour_def local_minute_def local_second_def
        local_ms_def const lr z ms_per_day_def pad2_def show_nat.simps)
qed

lemma midnight_search_fixed_offset:
  assumes const: "\<And>t. tz t = off"
    and "off mod 1000 = 0" and "r0 mod 1000 = 0"
    and "midnight_search tz dateStr (Some r0) ks = Inr (Some r)"
  shows "Some r = parse_utc_midnight dateStr \<or>
         (format_date tz (Some r) = Inr dateStr \<and> format_hms tz r = ''00:00:00'')"
  using assms(4)
proof (induction ks)
  case Nil
  then show ?case by simp
next
  case (Cons k ks)
  show ?case
  proof (cases "time_clip (r0 + k * 3600000)")
    case None
    with Cons.prems show ?thesis by (simp add: format_date_def)
  next
    case (Some c)
    then have c: "c = r0 + k * 3600000"
      by (simp add: time_clip_def split: if_splits)
    show ?thesis
    proof (cases "show_ymd (local_date tz c) = dateStr")
      case True
      with Some Cons.prems
      have r: "r = c - (local_hour tz c * 3600000 + local_minute tz c * 60000
                      + local_second tz c * 1000)"
        by (simp add: format_date_def)
      have "(1000::int) dvd k * 3600000"
        by (rule dvd_mult) simp
      moreover have "1000 dvd r0" "1000 dvd off"
        using assms(2,3) by (simp_all add: mod_eq_0_iff_dvd)
      ultimately have "1000 dvd c + off"
        unfolding c by (intro dvd_add)
      then have whole: "(c + off) mod 1000 = 0"
        by (simp add: mod_eq_0_iff_dvd)
      from found_branch_midnight [OF const whole r] True
      show ?thesis by (simp add: format_date_def)
    next
      case False
      with Some Cons.prems have "midnight_search tz dateStr (Some r0) ks = Inr (Some r)"
        by (simp add: format_date_def)
      then show ?thesis by (rule Cons.IH)
    qed
  qed
qed


lemma time_clip_Some: "time_clip x = Some r \<Longrightarrow> r = x"
  by (simp add: time_clip_def split: if_splits)

lemma Date_UTC_whole_second: "Date_UTC y m d 12 = Some r0 \<Longrightarrow> r0 mod 1000 = 0"
proof -
  assume a: "Date_UTC y m d 12 = Some r0"
  then obtain n where "time_clip (n * ms_per_day + 12 * 3600000) = Some r0"
    by (auto simp: Date_UTC_def Let_def split: option.splits)
  then have r0: "r0 = n * 86400000 + 12 * 3600000"
    unfolding ms_per_day_def by (rule time_clip_Some)
  have "(1000::int) dvd n * 86400000"
    by (rule dvd_mult) simp
  moreover have "(1000::int) dvd 12 * 3600000"
    by simp
  ultimately have "1000 dvd r0"
    unfolding r0 by (rule dvd_add)
  then show ?thesis by (simp add: mod_eq_0_iff_dvd)
qed

lemma midnightUtcForDate_fixed_offset:
  assumes const: "\<And>t. tz t = off"
    and whole: "off mod 1000 = 0"
    and res: "midnightUtcForDate dateStr tz = Inr (Some r)"
  shows "Some r = parse_utc_midnight dateStr \<or>
         (format_date tz (Some r) = Inr dateStr \<and> format_hms tz r = ''00:00:00'')"
proof -
  let ?ps = "split_on (CHR ''-'') dateStr"
  let ?rough = "Date_UTC (part ?ps 0) (map_option (\<lambda>m. m - 1) (part ?ps 1)) (part ?ps 2) 12"
  from res have ms: "midnight_search tz dateStr ?rough offset_hours = Inr (Some r)"
    unfolding midnightUtcForDate_def Let_def .
  show ?thesis
  proof (cases ?rough)
    case None
    with ms show ?thesis
      by (simp add: offset_hours_def format_date_def)
  next
    case (Some r0)
    then have "r0 mod 1000 = 0"
      by (rule Date_UTC_whole_second)
    moreover from ms have "midnight_search tz dateStr (Some r0) offset_hours = Inr (Some r)"
      unfolding Some .
    ultimately show ?thesis
      by (intro midnight_search_fixed_offset [OF const whole])
  qed
qed

text \<open>
  C2 fails in the code on the day daylight saving starts in Sydney, 6 October 2024. The
  first instant that the loop finds on that local date is 2024-10-05T22:00:00Z, which is
  09:00 at UTC+11; nine hours earlier the zone was still at UTC+10, so the result,
  2024-10-05T13:00:00Z, is 23:00:00 on 5 October. Local midnight of 6 October is
  2024-10-05T14:00:00Z.
\<close>

theorem C2_dst_start_not_midnight:
  "midnightUtcForDate ''2024-10-06'' sydney = Inr (Some 1728133200000) \<and>
   toISOString (Some 1728133200000) = Inr ''2024-10-05T13:00:00.000Z'' \<and>
   format_date sydney (Some 1728133200000) = Inr ''2024-10-05'' \<and>
   format_hms sydney 1728133200000 = ''23:00:00'' \<and>
   toISOString (Some 1728136800000) = Inr ''2024-10-05T14:00:00.000Z'' \<and>
   format_date sydney (Some 1728136800000) = Inr ''2024-10-06'' \<and>
   format_hms sydney 1728136800000 = ''00:00:00''"
  by code_simp

subsection \<open>The capture handler\<close>

text \<open>
  C10: for an event whose channel is not \<open>whatsapp\<close>, or whose conversation id is absent or
  does not end in \<open>@g.us\<close>, or whose content is absent or empty once trimmed, the capture
  handler returns the state it was given: the store is unchanged (no group upserted, no
  message inserted) and no embedding request is started.
\<close>

theorem C10_capture_frame:
  assumes "channelId hc \<noteq> ''whatsapp''
           \<or> (case conversationId hc of None \<Rightarrow> True | Some c \<Rightarrow> \<not> endsWith c ''@g.us'')
           \<or> (case ev_content ev of None \<Rightarrow> True | Some s \<Rightarrow> trim s = [])"
  shows "captureHandler uuid now ev hc w = Inr w"
  using assms by (auto simp: captureHandler_def split: option.splits)

theorem C10_capture_frame_witness:
  "channelId group_ctx = ''whatsapp'' \<and> conversationId group_ctx = Some ''g1@g.us'' \<and>
   endsWith ''g1@g.us'' ''@g.us'' \<and>
   ev_content blank_event = Some [CHR '' '', CHR 9, CHR 10] \<and>
   trim [CHR '' '', CHR 9, CHR 10] = [] \<and>
   captureHandler ''id-1'' 5 blank_event group_ctx world1 = Inr world1 \<and>
   captureHandler ''id-1'' 5 (blank_event\<lparr>ev_content := Some ''hello''\<rparr>)
     (group_ctx\<lparr>channelId := ''telegram''\<rparr>) world1 = Inr world1 \<and>
   captureHandler ''id-1'' 5 (blank_event\<lparr>ev_content := Some ''hello''\<rparr>)
     (group_ctx\<lparr>conversationId := Some ''alice@s.whatsapp.net''\<rparr>) world1 = Inr world1"
  using C10_capture_frame [of group_ctx blank_event "''id-1''" 5 world1]
    C10_capture_frame [of "group_ctx\<lparr>channelId := ''telegram''\<rparr>"
      "blank_event\<lparr>ev_content := Some ''hello''\<rparr>" "''id-1''" 5 world1]
    C10_capture_frame [of "group_ctx\<lparr>conversationId := Some ''alice@s.whatsapp.net''\<rparr>"
      "blank_event\<lparr>ev_content := Some ''hello''\<rparr>" "''id-1''" 5 world1]
  by (simp add: trim_def is_space_def blank_event_def group_ctx_def endsWith_def)

text \<open>
  An event that passes the three checks is stored: the handler is not the identity. The
  group is upserted before the message is inserted, so the foreign key of the message is
  met and the handler returns.
\<close>

lemma capture_stores:
  "captureHandler ''id-2'' 5 (blank_event\<lparr>ev_content := Some '' hello ''\<rparr>) group_ctx world1
     = Inr (world1\<lparr>db := \<lparr>groups = [\<lparr>g_jid = ''g1@g.us'', g_name = None, g_first_seen = 0,
                   g_last_message = Some 5, g_message_count = 2\<rparr>],
        messages = [msg0, \<lparr>m_id = ''id-2'', m_group_jid = ''g1@g.us'', m_sender_id = ''alice'',
                           m_sender_name = None, m_content = ''hello'', m_timestamp = 5,
                           m_metadata = None\<rparr>],
        daily_summaries = [], message_embeddings = [], vecAvailable = False, dims = 1536\<rparr>\<rparr>)"
  by (simp add: captureHandler_def blank_event_def group_ctx_def endsWith_def trim_def
      is_space_def world1_def upsertGroup_def insertMessage_def has_group_def group_row_def
      msg0_def vectorEnabled_def)

lemma capture_returns: "\<exists>w'. captureHandler uuid now ev hc w = Inr w'"
proof -
  have ins: "\<exists>r. insertMessage (upsertGroup d now jid name) uuid
            \<lparr>m_id = i, m_group_jid = jid, m_sender_id = a, m_sender_name = b, m_content = c,
             m_timestamp = t, m_metadata = e\<rparr> = Inr r" for d jid name i a b c t e
    by (simp add: insertMessage_def has_group_upsertGroup)
  show ?thesis
  proof (cases "captureHandler uuid now ev hc w")
    case (Inr w')
    then show ?thesis by simp
  next
    case (Inl err)
    then show ?thesis
      using ins
      by (auto simp: captureHandler_def Let_def insertMessage_def has_group_upsertGroup
          split: if_splits option.splits sum.splits prod.splits)
  qed
qed

end
